theory Spec2Isabelle
  imports Main "HOL-Library.Sublist"
begin

section \<open>Go string primitives used by the step package\<close>

text \<open>
  Go strings are byte sequences; \<open>string\<close> (a list of 8-bit characters) models them.
  The three functions below stand for the standard-library calls that
  \<open>maskSecretEnvs\<close> makes: \<open>strings.Split(s, "=")\<close> with a one-byte separator,
  \<open>strings.Join(parts, sep)\<close> and \<open>strings.Replace(s, old, new, -1)\<close>.
\<close>

text \<open>
  \<open>strings.Split\<close> with a one-byte separator cuts at every occurrence of the separator:
  a string with \<open>n\<close> separators yields \<open>n + 1\<close> parts, and the empty string yields one
  empty part.
\<close>

fun Split :: "string \<Rightarrow> char \<Rightarrow> string list" where
  "Split [] sep = [[]]"
| "Split (c # cs) sep =
     (if c = sep then [] # Split cs sep
      else (c # hd (Split cs sep)) # tl (Split cs sep))"

fun Join :: "string list \<Rightarrow> string \<Rightarrow> string" where
  "Join [] sep = []"
| "Join [p] sep = p"
| "Join (p # q # ps) sep = p @ sep @ Join (q # ps) sep"

text \<open>
  \<open>strings.Replace(s, old, new, -1)\<close> for a non-empty \<open>old\<close>: scanning from the left, each
  occurrence of \<open>old\<close> found is replaced by \<open>new\<close> and the scan resumes after it, so the
  occurrences replaced do not overlap. Both callers in step.go skip empty secrets, so
  the empty pattern (where Go inserts \<open>new\<close> between runes) is never passed; the
  function returns \<open>s\<close> unchanged there.
\<close>

fun Replace :: "string \<Rightarrow> string \<Rightarrow> string \<Rightarrow> string" where
  "Replace [] old new = []"
| "Replace (c # cs) old new =
     (if old \<noteq> [] \<and> take (length old) (c # cs) = old
      then new @ Replace (drop (length old) (c # cs)) old new
      else c # Replace cs old new)"

section \<open>step.go: secret masking\<close>

definition secretEnvMask :: string where
  "secretEnvMask = ''********''"

text \<open>
  The loop of \<open>maskSecretEnvs\<close> over \<open>secretEnvs\<close>, with \<open>out\<close> as its accumulator.
  Each \<open>continue\<close> of the source is a recursive call with \<open>out\<close> unchanged.
\<close>

fun maskSecretEnvs_loop :: "string \<Rightarrow> string list \<Rightarrow> string" where
  "maskSecretEnvs_loop out [] = out"
| "maskSecretEnvs_loop out (val # rest) =
     (if length val = 0 then maskSecretEnvs_loop out rest
      else let sl = Split val (CHR ''='') in
        if length sl \<noteq> 2 then maskSecretEnvs_loop out rest
        else if length (sl ! 0) = 0 \<or> length (sl ! 1) = 0 then maskSecretEnvs_loop out rest
        else maskSecretEnvs_loop (Replace out (Join (drop 1 sl) ''='') secretEnvMask) rest)"

definition maskSecretEnvs :: "string \<Rightarrow> string list \<Rightarrow> string" where
  "maskSecretEnvs message secretEnvs = maskSecretEnvs_loop message secretEnvs"


text \<open>
  The test that \<open>maskSecretEnvs\<close> applies to an entry before masking with it: the
  entry splits at \<open>=\<close> into exactly two parts, both non-empty. (An empty entry splits
  into one part, so the source's first check is covered.)
\<close>

definition splits_in_two :: "string \<Rightarrow> bool" where
  "splits_in_two val \<longleftrightarrow>
     (let sl = Split val (CHR ''='') in length sl = 2 \<and> sl ! 0 \<noteq> [] \<and> sl ! 1 \<noteq> [])"


section \<open>step.go: errors, logging and the output handler\<close>

text \<open>
  Go error values. \<open>EOF\<close> is the sentinel \<open>io.EOF\<close>; \<open>Errorf m\<close> is the error that
  \<open>fmt.Errorf\<close> builds inside the modelled code, with its formatted message; \<open>Collab m\<close>
  is an error handed back by a function that is not part of the modelled code (a step
  constructor, \<open>Run\<close>, \<open>util.WriteFile\<close>, the pipe), identified by its message.
\<close>

datatype error = EOF | Errorf string | Collab string

text \<open>Calls to the logger, in order: the level, the format (if any) and the error.\<close>

datatype log_entry = LogError error | LogErrorf string error | LogWarnf string error

text \<open>
  \<open>bufio.Reader.ReadBytes(delim)\<close> on a pipe that still delivers the bytes \<open>buf\<close> and
  then ends with the error \<open>final\<close> (\<open>EOF\<close> for a clean end): the result is the line up to
  and including the first delimiter, what remains of the stream, and no error; when no
  delimiter is left, it is the remaining bytes together with the error.
\<close>

definition ReadBytes :: "string \<Rightarrow> error \<Rightarrow> char \<Rightarrow> string \<times> string \<times> error option" where
  "ReadBytes buf final delim =
     (if delim \<in> set buf
      then (takeWhile (\<lambda>c. c \<noteq> delim) buf @ [delim],
            tl (dropWhile (\<lambda>c. c \<noteq> delim) buf), None)
      else (buf, [], Some final))"

text \<open>
  What \<open>handleCmdOutput\<close> acts on: the bytes printed to standard output, the file
  system \<open>util.WriteFile\<close> writes to, and the logger.
\<close>

record 'fs out_state =
  stdout :: string
  files :: 'fs
  out_log :: "log_entry list"

text \<open>
  \<open>util.WriteFile\<close> is not among the sources: it is the parameter \<open>WriteFile\<close>, taking the
  file name, the data, the permission bits (octal 0700 is 448) and the file system, and
  returning an error (if any) and the file system after the call.
\<close>

type_synonym 'fs write_file = "string \<Rightarrow> string \<Rightarrow> nat \<Rightarrow> 'fs \<Rightarrow> error option \<times> 'fs"

lemma ReadBytes_shorter:
  "ReadBytes buf final delim = (lineBytes, rest, None) \<Longrightarrow> length rest < length buf"
proof -
  assume h: "ReadBytes buf final delim = (lineBytes, rest, None)"
  then have "delim \<in> set buf" and r: "rest = tl (dropWhile (\<lambda>c. c \<noteq> delim) buf)"
    by (auto simp: ReadBytes_def split: if_splits)
  then have "dropWhile (\<lambda>c. c \<noteq> delim) buf \<noteq> []" by auto
  then have "length rest < length (dropWhile (\<lambda>c. c \<noteq> delim) buf)"
    using r by (cases "dropWhile (\<lambda>c. c \<noteq> delim) buf") auto
  also have "\<dots> \<le> length buf" by (rule length_dropWhile_le)
  finally show ?thesis .
qed

function handleCmdOutput_loop ::
  "'fs write_file \<Rightarrow> string \<Rightarrow> error \<Rightarrow> bool \<Rightarrow> string \<Rightarrow> string list \<Rightarrow> 'fs out_state
     \<Rightarrow> 'fs out_state" where
  "handleCmdOutput_loop WriteFile buf final needPersistentLog logFile secretEnvs st =
     (case ReadBytes buf final (CHR 0x0A) of
        (lineBytes, rest, Some err) \<Rightarrow>
          (if err = EOF then st
           else st\<lparr>out_log := out_log st @
                  [LogErrorf ''Failed to read log when processing cmd output: %s'' err]\<rparr>)
      | (lineBytes, rest, None) \<Rightarrow>
          (let st1 = st\<lparr>stdout := stdout st @ maskSecretEnvs lineBytes secretEnvs\<rparr>;
               st2 = (if needPersistentLog
                      then (case WriteFile logFile lineBytes 448 (files st1) of
                              (Some err, fs) \<Rightarrow>
                                st1\<lparr>files := fs, out_log := out_log st1 @
                                  [LogWarnf ''Failed to write file when processing cmd output: %s'' err]\<rparr>
                            | (None, fs) \<Rightarrow> st1\<lparr>files := fs\<rparr>)
                      else st1)
           in handleCmdOutput_loop WriteFile rest final needPersistentLog logFile secretEnvs st2))"
  by pat_completeness auto
termination
  by (relation "measure (\<lambda>(WriteFile, buf, final, needPersistentLog, logFile, secretEnvs, st). length buf)")
     (auto dest: ReadBytes_shorter [OF sym])

declare handleCmdOutput_loop.simps [simp del]

definition handleCmdOutput ::
  "'fs write_file \<Rightarrow> string \<Rightarrow> error \<Rightarrow> bool \<Rightarrow> string \<Rightarrow> string list \<Rightarrow> 'fs out_state
     \<Rightarrow> 'fs out_state" where
  "handleCmdOutput WriteFile pipe final needPersistentLog logFile secretEnvs st =
     handleCmdOutput_loop WriteFile pipe final needPersistentLog logFile secretEnvs st"

text \<open>
  Modelled from the spec: \<open>util.WriteFile\<close> is missing from the sources; the spec says
  that the handler "appends" the line "to a log file". The file system is a map from
  file names to contents, and a write appends the data to the named file, creating it
  when absent, and succeeds.
\<close>

definition WriteFile_append :: "(string \<rightharpoonup> string) write_file" where
  "WriteFile_append filename data perm fs =
     (None, fs(filename \<mapsto> (case fs filename of None \<Rightarrow> data | Some old \<Rightarrow> old @ data)))"

section \<open>step.go: the step runner\<close>

text \<open>
  \<open>meta.Step\<close> is declared outside the sources; these are the three fields that step.go
  reads. \<open>Spec\<close> is an opaque payload.
\<close>

record 'spec meta_Step =
  StepType :: string
  Spec :: 'spec
  Onfailure :: bool

text \<open>
  The step constructors are outside the sources. A value of \<open>step_call\<close> is one call to a
  constructor with the arguments that \<open>runStep\<close> passes.
\<close>

datatype 'spec step_call =
    NewShellStep 'spec string string "string list" "string list"
  | NewGitStep 'spec string "string list" "string list"
  | NewDockerBuildStep 'spec string "string list" "string list"
  | NewToolInstallStep 'spec string "string list" "string list"
  | NewArchiveStep 'spec string "string list" "string list"
  | NewJunitReportStep 'spec string "string list" "string list"
  | NewTararchiveStep 'spec string "string list" "string list"
  | NewSonarCheckStep 'spec string "string list" "string list"

text \<open>
  The collaborators of \<open>runStep\<close>, as parameters: \<open>new\<close> performs a constructor call in
  the world \<open>'w\<close> (processes, files, network) and returns an error message or a step
  instance; \<open>Run\<close> runs an instance and returns an error message or nothing. Both return
  the world after the call.
\<close>

type_synonym ('spec, 'inst, 'w) constructors = "'spec step_call \<Rightarrow> 'w \<Rightarrow> (string + 'inst) \<times> 'w"
type_synonym ('inst, 'w) runner = "'inst \<Rightarrow> 'w \<Rightarrow> string option \<times> 'w"

record 'w step_state =
  world :: 'w
  logged :: "log_entry list"

text \<open>The \<open>switch\<close> of \<open>runStep\<close>: the constructor call chosen for a step, if any.\<close>

definition stepCall ::
  "'spec meta_Step \<Rightarrow> string \<Rightarrow> string \<Rightarrow> string list \<Rightarrow> string list \<Rightarrow> 'spec step_call option" where
  "stepCall step workspace paths envs secretEnvs =
     (if StepType step = ''shell'' then Some (NewShellStep (Spec step) workspace paths envs secretEnvs)
      else if StepType step = ''git'' then Some (NewGitStep (Spec step) workspace envs secretEnvs)
      else if StepType step = ''docker_build'' then Some (NewDockerBuildStep (Spec step) workspace envs secretEnvs)
      else if StepType step = ''tools'' then Some (NewToolInstallStep (Spec step) workspace envs secretEnvs)
      else if StepType step = ''archive'' then Some (NewArchiveStep (Spec step) workspace envs secretEnvs)
      else if StepType step = ''junit_report'' then Some (NewJunitReportStep (Spec step) workspace envs secretEnvs)
      else if StepType step = ''tar_archive'' then Some (NewTararchiveStep (Spec step) workspace envs secretEnvs)
      else if StepType step = ''sonar_check'' then Some (NewSonarCheckStep (Spec step) workspace envs secretEnvs)
      else None)"

text \<open>
  What every case of the \<open>switch\<close> does with its constructor call, followed by the call
  of \<open>Run\<close> after the \<open>switch\<close>: a constructor error is returned as it is, an error of
  \<open>Run\<close> is logged and returned.
\<close>

definition construct_and_run ::
  "('spec, 'inst, 'w) constructors \<Rightarrow> ('inst, 'w) runner \<Rightarrow> 'spec step_call \<Rightarrow> 'w step_state
     \<Rightarrow> error option \<times> 'w step_state" where
  "construct_and_run new Run call st =
     (case new call (world st) of
        (Inl m, w) \<Rightarrow> (Some (Collab m), st\<lparr>world := w\<rparr>)
      | (Inr stepInstance, w) \<Rightarrow>
          (case Run stepInstance w of
             (Some m, w') \<Rightarrow>
               (Some (Collab m), st\<lparr>world := w', logged := logged st @ [LogError (Collab m)]\<rparr>)
           | (None, w') \<Rightarrow> (None, st\<lparr>world := w'\<rparr>)))"

definition runStep ::
  "('spec, 'inst, 'w) constructors \<Rightarrow> ('inst, 'w) runner \<Rightarrow> 'spec meta_Step
     \<Rightarrow> string \<Rightarrow> string \<Rightarrow> string list \<Rightarrow> string list \<Rightarrow> 'w step_state
     \<Rightarrow> error option \<times> 'w step_state" where
  "runStep new Run step workspace paths envs secretEnvs st =
     (case stepCall step workspace paths envs secretEnvs of
        None \<Rightarrow>
          (let err = Errorf (''step type: '' @ StepType step @ '' does not match any known type'')
           in (Some err, st\<lparr>logged := logged st @ [LogError err]\<rparr>))
      | Some call \<Rightarrow> construct_and_run new Run call st)"

text \<open>
  The loop of \<open>RunSteps\<close>, with the variables \<open>hasFailed\<close> and \<open>respErr\<close>. The list of events
  is not a variable of the program: it records, for each step in order, whether the
  loop passed it to \<open>runStep\<close> (and what \<open>runStep\<close> returned) or skipped it, so that
  properties of the dispatch can be stated.
\<close>

datatype step_event = Skipped | Dispatched "error option"

fun RunSteps_loop ::
  "('spec, 'inst, 'w) constructors \<Rightarrow> ('inst, 'w) runner \<Rightarrow> 'spec meta_Step list
     \<Rightarrow> string \<Rightarrow> string \<Rightarrow> string list \<Rightarrow> string list
     \<Rightarrow> bool \<Rightarrow> error option \<Rightarrow> 'w step_state \<Rightarrow> step_event list
     \<Rightarrow> error option \<times> 'w step_state \<times> step_event list" where
  "RunSteps_loop new Run [] workspace paths envs secretEnvs hasFailed respErr st evs =
     (respErr, st, evs)"
| "RunSteps_loop new Run (stepInfo # rest) workspace paths envs secretEnvs hasFailed respErr st evs =
     (if hasFailed \<and> \<not> Onfailure stepInfo
      then RunSteps_loop new Run rest workspace paths envs secretEnvs hasFailed respErr st
             (evs @ [Skipped])
      else (case runStep new Run stepInfo workspace paths envs secretEnvs st of
              (Some err, st') \<Rightarrow>
                RunSteps_loop new Run rest workspace paths envs secretEnvs True (Some err) st'
                  (evs @ [Dispatched (Some err)])
            | (None, st') \<Rightarrow>
                RunSteps_loop new Run rest workspace paths envs secretEnvs hasFailed respErr st'
                  (evs @ [Dispatched None])))"

definition RunSteps ::
  "('spec, 'inst, 'w) constructors \<Rightarrow> ('inst, 'w) runner \<Rightarrow> 'spec meta_Step list
     \<Rightarrow> string \<Rightarrow> string \<Rightarrow> string list \<Rightarrow> string list \<Rightarrow> 'w step_state
     \<Rightarrow> error option \<times> 'w step_state \<times> step_event list" where
  "RunSteps new Run steps workspace paths envs secretEnvs st =
     RunSteps_loop new Run steps workspace paths envs secretEnvs False None st []"


text \<open>
  Three functions on event lists, used to state and prove properties of the loop:
  whether an event is a dispatch that returned an error, the errors of such events in
  order, and the relation between a step list and its events that the skipping rule of
  the loop maintains, given the value of \<open>hasFailed\<close> at the start.
\<close>

fun is_failure :: "step_event \<Rightarrow> bool" where
  "is_failure (Dispatched (Some err)) = True"
| "is_failure ev = False"

fun failures :: "step_event list \<Rightarrow> error list" where
  "failures [] = []"
| "failures (Dispatched (Some err) # evs) = err # failures evs"
| "failures (ev # evs) = failures evs"

fun skips_after_failure :: "'spec meta_Step list \<Rightarrow> bool \<Rightarrow> step_event list \<Rightarrow> bool" where
  "skips_after_failure [] hasFailed [] = True"
| "skips_after_failure (s # ss) hasFailed (ev # evs) =
     ((ev = Skipped \<longleftrightarrow> hasFailed \<and> \<not> Onfailure s)
      \<and> skips_after_failure ss (hasFailed \<or> is_failure ev) evs)"
| "skips_after_failure ss hasFailed evs = False"


text \<open>
  Example collaborators, for instantiating the theorems: every constructor succeeds and
  returns its own call as the instance; a shell step fails with \<open>E1\<close> when its payload
  is \<open>True\<close>, every other step succeeds. The first step list is the example of the
  spec (A succeeds, B fails, C must run on failure); the second adds an unknown step
  type and a step that is skipped.
\<close>

definition example_new :: "(bool, bool step_call, unit) constructors" where
  "example_new call w = (Inr call, w)"

definition example_Run :: "(bool step_call, unit) runner" where
  "example_Run stepInstance w =
     (case stepInstance of
        NewShellStep fails workspace paths envs secretEnvs \<Rightarrow>
          (if fails then Some ''E1'' else None, w)
      | _ \<Rightarrow> (None, w))"




definition example_steps_unknown :: "bool meta_Step list" where
  "example_steps_unknown =
     [\<lparr>StepType = ''git'', Spec = False, Onfailure = False\<rparr>,
      \<lparr>StepType = ''tool_install'', Spec = False, Onfailure = False\<rparr>,
      \<lparr>StepType = ''shell'', Spec = False, Onfailure = False\<rparr>,
      \<lparr>StepType = ''tools'', Spec = False, Onfailure = True\<rparr>]"


text \<open>
  The steps of a list whose event is not \<open>Skipped\<close>, in order: the steps that the loop
  passed to \<open>runStep\<close>. Used to state what the final state of a run is.
\<close>

fun dispatched_steps :: "'a list \<Rightarrow> step_event list \<Rightarrow> 'a list" where
  "dispatched_steps (s # ss) (ev # evs) =
     (if ev = Skipped then dispatched_steps ss evs else s # dispatched_steps ss evs)"
| "dispatched_steps ss evs = []"

text \<open>
  Recording collaborators, for instantiating the theorems: the world is the list of
  the calls made so far, a constructor call and a call of \<open>Run\<close> each append their
  record. Every constructor succeeds and returns its own call as the instance; a shell
  step fails with \<open>E1\<close> when its payload is \<open>True\<close>, every other step succeeds.
\<close>

datatype 'spec call_record = Constructed "'spec step_call" | Ran "'spec step_call"

definition recording_new :: "(bool, bool step_call, bool call_record list) constructors" where
  "recording_new call w = (Inr call, w @ [Constructed call])"

definition recording_Run :: "(bool step_call, bool call_record list) runner" where
  "recording_Run stepInstance w =
     ((case stepInstance of
         NewShellStep fails workspace paths envs secretEnvs \<Rightarrow>
           if fails then Some ''E1'' else None
       | _ \<Rightarrow> None),
      w @ [Ran stepInstance])"

section \<open>renderset.go: data and collaborators\<close>

text \<open>
  Error values of the service package. \<open>External m\<close> is an error returned by a function
  outside the sources, identified by its message. \<open>ErrListRepoDir_AddDesc err\<close> is
  \<open>e.ErrListRepoDir.AddDesc(err.Error())\<close>. \<open>Wrapf cause format\<close> is
  \<open>errors.Wrapf(cause, format)\<close> called with no further argument: it keeps the cause, and
  its message is the format string formatted with no arguments. \<open>MultiError errs\<close> is a
  \<open>*multierror.Error\<close> whose \<open>Errors\<close> are \<open>errs\<close>.
\<close>

datatype svc_error =
    External string
  | ErrListRepoDir_AddDesc svc_error
  | Wrapf svc_error string
  | MultiError "svc_error list"

text \<open>
  The structures below are declared outside the sources; each record has the fields
  that renderset.go reads or writes. Several of them share field names
  (\<open>CodehostID\<close>, \<open>Owner\<close>, \<open>Repo\<close>, \<open>Namespace\<close>, \<open>Branch\<close>), so the fields of the request
  argument carry the prefix \<open>arg_\<close>, those of \<open>DownloadFromSourceArgs\<close> the prefix \<open>dl_\<close>
  and those of the repository configuration the prefix \<open>repo_\<close>.
\<close>

record 'sd CustomYaml =
  Source :: string
  AutoSync :: bool
  SourceDetail :: 'sd
  SourceID :: string

record VariableSet =
  VariableYaml :: string

record GitRepoConfig =
  repo_CodehostID :: int
  repo_Namespace :: string
  repo_Owner :: string
  repo_Repo :: string
  repo_Branch :: string

record SourceDetailData =
  GitRepoConfig :: "GitRepoConfig option"
  LoadPath :: string

record DownloadFromSourceArgs =
  dl_CodehostID :: int
  dl_Owner :: string
  dl_Namespace :: string
  dl_Repo :: string
  dl_Path :: string
  dl_Branch :: string
  dl_RepoLink :: string

record YamlContentRequestArg =
  arg_CodehostID :: int
  arg_Owner :: string
  arg_Repo :: string
  arg_Namespace :: string
  arg_Branch :: string
  arg_RepoLink :: string
  arg_ValuesPaths :: string

record CodeHost =
  Type :: string

text \<open>
  The collaborators of \<open>SyncYamlFromSource\<close>, none of them among the sources: the
  constants of package \<open>setting\<close>, the lookup of a variable set by its identifier,
  \<open>yamlutil.Equal\<close> (which returns a flag and an error), the decoding of the source
  detail and the download of one file. A function that returns a value and an error
  whose value is not read when the error is set is a sum. Calls to the logger are left
  out of this part of the model.
\<close>

record 'sd sync_env =
  SourceFromGitRepo :: string
  SourceFromVariableSet :: string
  VariableSetColl_Find :: "string \<Rightarrow> svc_error + VariableSet"
  yamlutil_Equal :: "string \<Rightarrow> string \<Rightarrow> bool \<times> svc_error option"
  UnMarshalSourceDetail :: "'sd \<Rightarrow> svc_error + SourceDetailData"
  DownloadFileFromSource :: "DownloadFromSourceArgs \<Rightarrow> svc_error + string"

section \<open>renderset.go: SyncYamlFromSource\<close>

definition fromGitRepo :: "'sd sync_env \<Rightarrow> string \<Rightarrow> bool" where
  "fromGitRepo env source =
     (if source = [] then True
      else if source = SourceFromGitRepo env then True
      else False)"

definition syncYamlFromVariableSet ::
  "'sd sync_env \<Rightarrow> 'sd CustomYaml \<Rightarrow> string \<Rightarrow> bool \<times> string \<times> svc_error option" where
  "syncYamlFromVariableSet env yamlData curValue =
     (if Source yamlData \<noteq> SourceFromVariableSet env then (False, [], None)
      else case VariableSetColl_Find env (SourceID yamlData) of
             Inl err \<Rightarrow> (False, [], Some err)
           | Inr variableSet \<Rightarrow>
               (case yamlutil_Equal env (VariableYaml variableSet) curValue of
                  (equal, err) \<Rightarrow>
                    if err \<noteq> None \<or> equal then (False, [], err)
                    else (True, VariableYaml variableSet, None)))"

definition syncYamlFromGit ::
  "'sd sync_env \<Rightarrow> 'sd CustomYaml \<Rightarrow> string \<Rightarrow> bool \<times> string \<times> svc_error option" where
  "syncYamlFromGit env yamlData curValue =
     (if \<not> fromGitRepo env (Source yamlData) then (False, [], None)
      else case UnMarshalSourceDetail env (SourceDetail yamlData) of
             Inl err \<Rightarrow> (False, [], Some err)
           | Inr sourceDetail \<Rightarrow>
               (case GitRepoConfig sourceDetail of
                  None \<Rightarrow> (False, [], None)
                | Some repoConfig \<Rightarrow>
                    (case DownloadFileFromSource env
                            \<lparr>dl_CodehostID = repo_CodehostID repoConfig,
                             dl_Owner = repo_Owner repoConfig,
                             dl_Namespace = repo_Namespace repoConfig,
                             dl_Repo = repo_Repo repoConfig,
                             dl_Path = LoadPath sourceDetail,
                             dl_Branch = repo_Branch repoConfig,
                             dl_RepoLink = []\<rparr> of
                       Inl err \<Rightarrow> (False, [], Some err)
                     | Inr valuesYAML \<Rightarrow>
                         (case yamlutil_Equal env valuesYAML curValue of
                            (equal, err) \<Rightarrow>
                              if err \<noteq> None \<or> equal then (False, [], err)
                              else (True, valuesYAML, None)))))"

text \<open>The pointer \<open>yamlData\<close> may be nil: it is an option.\<close>

definition SyncYamlFromSource ::
  "'sd sync_env \<Rightarrow> 'sd CustomYaml option \<Rightarrow> string \<Rightarrow> bool \<times> string \<times> svc_error option" where
  "SyncYamlFromSource env yamlData curValue =
     (case yamlData of
        None \<Rightarrow> (False, [], None)
      | Some yd \<Rightarrow>
          if \<not> AutoSync yd then (False, [], None)
          else if Source yd = SourceFromVariableSet env then syncYamlFromVariableSet env yd curValue
          else syncYamlFromGit env yd curValue)"

text \<open>
  Example collaborators for \<open>SyncYamlFromSource\<close>: one variable set \<open>vs1\<close> holding
  \<open>a: 1\<close>, a comparison that ignores spaces, and one repository file.
\<close>

definition example_sync_env :: "unit sync_env" where
  "example_sync_env =
     \<lparr>SourceFromGitRepo = ''repo'',
      SourceFromVariableSet = ''variableSet'',
      VariableSetColl_Find =
        (\<lambda>ident. if ident = ''vs1'' then Inr \<lparr>VariableYaml = ''a: 1''\<rparr>
                  else Inl (External ''not found'')),
      yamlutil_Equal =
        (\<lambda>source target. (filter (\<lambda>c. c \<noteq> CHR '' '') source = filter (\<lambda>c. c \<noteq> CHR '' '') target, None)),
      UnMarshalSourceDetail =
        (\<lambda>sd. Inr \<lparr>GitRepoConfig =
                      Some \<lparr>repo_CodehostID = 1, repo_Namespace = ''ns'', repo_Owner = ''o'',
                            repo_Repo = ''r'', repo_Branch = ''main''\<rparr>,
                    LoadPath = ''values.yaml''\<rparr>),
      DownloadFileFromSource = (\<lambda>args. Inr ''b: 2'')\<rparr>"


section \<open>renderset.go: GetMergedYamlContent\<close>

text \<open>
  The collaborators of \<open>GetMergedYamlContent\<close>, none of them among the sources: the
  code-host lookup, the constant \<open>setting.SourceFromOther\<close>, \<open>command.RunGitCmds\<close>, the
  download of a file, \<open>config.S3StoragePath\<close>, \<open>path.Join\<close> of two elements,
  \<open>os.ReadFile\<close> and \<open>yamlutil.Merge\<close>. The download and the file read take, as their
  first argument, the index of the goroutine that makes the call, so that two calls
  with equal arguments made by different goroutines may have different outcomes.
\<close>

record merge_env =
  GetCodeHost :: "int \<Rightarrow> svc_error + CodeHost"
  SourceFromOther :: string
  RunGitCmds :: "CodeHost \<Rightarrow> string \<Rightarrow> string \<Rightarrow> string \<Rightarrow> string \<Rightarrow> string \<Rightarrow> svc_error option"
  DownloadFile :: "nat \<Rightarrow> DownloadFromSourceArgs \<Rightarrow> svc_error + string"
  S3StoragePath :: string
  path_Join :: "string \<Rightarrow> string \<Rightarrow> string"
  ReadFile :: "nat \<Rightarrow> string \<Rightarrow> svc_error + string"
  yamlutil_Merge :: "string list \<Rightarrow> svc_error + string"

text \<open>
  The outcome of the goroutine started for index \<open>index\<close> and path \<open>filePath\<close>: the
  wrapped error that it appends to \<open>errorList\<close>, or the content that it stores under its
  index. \<open>fmt.Sprintf\<close> with one \<open>%s\<close> at the end of the format appends the argument.
\<close>

definition fetch_result ::
  "merge_env \<Rightarrow> YamlContentRequestArg \<Rightarrow> nat \<Rightarrow> string \<Rightarrow> bool \<Rightarrow> svc_error + string" where
  "fetch_result env arg index filePath isOtherTypeRepo =
     (if \<not> isOtherTypeRepo
      then (case DownloadFile env index
                   \<lparr>dl_CodehostID = arg_CodehostID arg,
                    dl_Owner = arg_Owner arg,
                    dl_Namespace = arg_Namespace arg,
                    dl_Repo = arg_Repo arg,
                    dl_Path = filePath,
                    dl_Branch = arg_Branch arg,
                    dl_RepoLink = arg_RepoLink arg\<rparr> of
              Inl errDownload \<Rightarrow>
                Inl (Wrapf errDownload (''failed to download file from git, path '' @ filePath))
            | Inr fileContent \<Rightarrow> Inr fileContent)
      else (let base = path_Join env (S3StoragePath env) (arg_Repo arg);
                relativePath = path_Join env base filePath
            in case ReadFile env index relativePath of
                 Inl errReadFile \<Rightarrow>
                   Inl (Wrapf errReadFile
                         (''failed to read file from git repo, relative path '' @ relativePath))
               | Inr fileContent \<Rightarrow> Inr fileContent))"

text \<open>
  The two objects that the goroutines share: the map from index to content
  (\<open>sync.Map\<close>) and the list of errors, appended to under \<open>errLock\<close>. A goroutine touches
  them in one atomic action, a store or an append under the lock.
\<close>

record fetch_state =
  fileContentMap :: "nat \<rightharpoonup> string"
  errorList :: "svc_error list"

definition fetch_unit ::
  "merge_env \<Rightarrow> YamlContentRequestArg \<Rightarrow> bool \<Rightarrow> nat \<times> string \<Rightarrow> fetch_state \<Rightarrow> fetch_state" where
  "fetch_unit env arg isOtherTypeRepo unit fs =
     (case unit of (index, filePath) \<Rightarrow>
        (case fetch_result env arg index filePath isOtherTypeRepo of
           Inl err \<Rightarrow> fs\<lparr>errorList := errorList fs @ [err]\<rparr>
         | Inr fileContent \<Rightarrow> fs\<lparr>fileContentMap := (fileContentMap fs)(index \<mapsto> fileContent)\<rparr>))"

text \<open>
  \<open>GetMergedYamlContent\<close>. One goroutine is started per element of \<open>paths\<close>, and
  \<open>wg.Wait\<close> returns when all have finished. Since each goroutine acts on the shared
  objects once and atomically, an execution is determined by the order in which the
  goroutines act: \<open>sched\<close> lists the started units, index and path, in that order. It is
  a permutation of \<open>List.enumerate 0 paths\<close>; the theorems assume so. The final loop
  reads the map at the indices \<open>0\<close> to \<open>len(paths) - 1\<close> in order. Calls to the logger
  are left out.
\<close>

definition GetMergedYamlContent ::
  "merge_env \<Rightarrow> (nat \<times> string) list \<Rightarrow> YamlContentRequestArg \<Rightarrow> string list
     \<Rightarrow> string \<times> svc_error option" where
  "GetMergedYamlContent env sched arg paths =
     (case GetCodeHost env (arg_CodehostID arg) of
        Inl err \<Rightarrow> ([], Some (ErrListRepoDir_AddDesc err))
      | Inr detail \<Rightarrow>
          (case (if Type detail = SourceFromOther env
                 then RunGitCmds env detail (arg_Namespace arg) (arg_Namespace arg)
                        (arg_Repo arg) (arg_Branch arg) ''origin''
                 else None) of
             Some err \<Rightarrow> ([], Some (ErrListRepoDir_AddDesc err))
           | None \<Rightarrow>
               (let fs = fold (fetch_unit env arg (Type detail = SourceFromOther env)) sched
                           \<lparr>fileContentMap = Map.empty, errorList = []\<rparr>
                in if errorList fs \<noteq> [] then ([], Some (MultiError (errorList fs)))
                   else (let contentArr =
                               fold (\<lambda>i contentArr.
                                       case fileContentMap fs i of
                                         Some contentObj \<Rightarrow> contentArr @ [contentObj]
                                       | None \<Rightarrow> contentArr)
                                    [0..<length paths] []
                         in case yamlutil_Merge env contentArr of
                              Inl err \<Rightarrow> ([], Some (Wrapf err ''failed to merge files''))
                            | Inr ret \<Rightarrow> (ret, None)))))"

text \<open>
  Example collaborators for \<open>GetMergedYamlContent\<close>: a git-hosted repository in which
  every file whose name starts with \<open>b\<close> fails to download, and a merge that
  concatenates the fragments.
\<close>

definition example_merge_env :: merge_env where
  "example_merge_env =
     \<lparr>GetCodeHost = (\<lambda>ident. Inr \<lparr>Type = ''gitlab''\<rparr>),
      SourceFromOther = ''other'',
      RunGitCmds = (\<lambda>detail ns1 ns2 repo branch remote. None),
      DownloadFile =
        (\<lambda>index args. if take 1 (dl_Path args) = ''b'' then Inl (External ''network error'')
                       else Inr (dl_Path args @ '';'')),
      S3StoragePath = ''/s3'',
      path_Join = (\<lambda>a b. a @ ''/'' @ b),
      ReadFile = (\<lambda>index file. Inr file),
      yamlutil_Merge = (\<lambda>contents. Inr (concat contents))\<rparr>"

definition example_arg :: YamlContentRequestArg where
  "example_arg =
     \<lparr>arg_CodehostID = 1, arg_Owner = ''o'', arg_Repo = ''r'', arg_Namespace = ''ns'',
      arg_Branch = ''main'', arg_RepoLink = [], arg_ValuesPaths = []\<rparr>"


text \<open>
  The wrapped errors of the units that fail, in the order in which the units act.
\<close>

definition fetch_errors ::
  "merge_env \<Rightarrow> YamlContentRequestArg \<Rightarrow> bool \<Rightarrow> (nat \<times> string) list \<Rightarrow> svc_error list" where
  "fetch_errors env arg isOtherTypeRepo sched =
     [err. (index, filePath) \<leftarrow> sched,
           Inl err \<leftarrow> [fetch_result env arg index filePath isOtherTypeRepo]]"



section \<open>Properties of the string primitives\<close>

lemma Split_not_Nil: "Split s sep \<noteq> []"
  by (induction s) auto

lemma Split_no_sep: "sep \<notin> set s \<Longrightarrow> Split s sep = [s]"
  by (induction s) auto

lemma Split_append_sep: "sep \<notin> set k \<Longrightarrow> Split (k @ sep # r) sep = k # Split r sep"
  by (induction k) auto

lemma Join_Split: "Join (Split s sep) [sep] = s"
proof (induction s)
  case Nil
  then show ?case by simp
next
  case (Cons c cs)
  obtain p ps where sp: "Split cs sep = p # ps"
    using Split_not_Nil [of cs sep] by (cases "Split cs sep") auto
  with Cons show ?case by (cases ps) auto
qed

lemma Split_parts_no_sep: "p \<in> set (Split s sep) \<Longrightarrow> sep \<notin> set p"
proof (induction s arbitrary: p)
  case Nil
  then show ?case by simp
next
  case (Cons c cs)
  obtain q qs where sp: "Split cs sep = q # qs"
    using Split_not_Nil [of cs sep] by (cases "Split cs sep") auto
  with Cons show ?case by (auto split: if_splits)
qed

lemma Split_two:
  "Split e sep = [k, v] \<longleftrightarrow> e = k @ sep # v \<and> sep \<notin> set k \<and> sep \<notin> set v"
proof
  assume h: "Split e sep = [k, v]"
  have "Join (Split e sep) [sep] = e" by (rule Join_Split)
  with h have "e = k @ sep # v" by simp
  moreover have "sep \<notin> set k" "sep \<notin> set v"
    using Split_parts_no_sep [of k e sep] Split_parts_no_sep [of v e sep] h by auto
  ultimately show "e = k @ sep # v \<and> sep \<notin> set k \<and> sep \<notin> set v" by simp
next
  assume "e = k @ sep # v \<and> sep \<notin> set k \<and> sep \<notin> set v"
  then show "Split e sep = [k, v]"
    by (simp add: Split_append_sep Split_no_sep)
qed










lemma splits_in_two_iff:
  "splits_in_two e \<longleftrightarrow>
     (\<exists>k v. e = k @ ''='' @ v \<and> k \<noteq> [] \<and> v \<noteq> [] \<and> CHR ''='' \<notin> set k \<and> CHR ''='' \<notin> set v)"
proof
  assume "splits_in_two e"
  then have len: "length (Split e (CHR ''='')) = 2"
    and ne: "Split e (CHR ''='') ! 0 \<noteq> []" "Split e (CHR ''='') ! 1 \<noteq> []"
    by (simp_all add: splits_in_two_def Let_def)
  from len obtain k v where sp: "Split e (CHR ''='') = [k, v]"
    by (cases "Split e (CHR ''='')" rule: list.exhaust) (auto simp: length_Suc_conv)
  with ne have "k \<noteq> []" "v \<noteq> []" by simp_all
  moreover from sp have "e = k @ ''='' @ v" "CHR ''='' \<notin> set k" "CHR ''='' \<notin> set v"
    by (simp_all add: Split_two)
  ultimately show "\<exists>k v. e = k @ ''='' @ v \<and> k \<noteq> [] \<and> v \<noteq> [] \<and> CHR ''='' \<notin> set k \<and> CHR ''='' \<notin> set v"
    by blast
next
  assume "\<exists>k v. e = k @ ''='' @ v \<and> k \<noteq> [] \<and> v \<noteq> [] \<and> CHR ''='' \<notin> set k \<and> CHR ''='' \<notin> set v"
  then obtain k v where "e = k @ ''='' @ v" "k \<noteq> []" "v \<noteq> []" "CHR ''='' \<notin> set k" "CHR ''='' \<notin> set v"
    by blast
  moreover from this have "Split e (CHR ''='') = [k, v]" by (simp add: Split_two)
  ultimately show "splits_in_two e" by (simp add: splits_in_two_def)
qed

section \<open>Secret masking (claim C3)\<close>










section \<open>The output handler (claim C1)\<close>

lemma ReadBytes_line:
  "delim \<notin> set line \<Longrightarrow>
     ReadBytes (line @ delim # rest) final delim = (line @ [delim], rest, None)"
  by (induction line) (auto simp: ReadBytes_def)

lemma handleCmdOutput_loop_end:
  "CHR 0x0A \<notin> set buf \<Longrightarrow>
     handleCmdOutput_loop WriteFile buf final needPersistentLog logFile secretEnvs st =
       (if final = EOF then st
        else st\<lparr>out_log := out_log st @
               [LogErrorf ''Failed to read log when processing cmd output: %s'' final]\<rparr>)"
  by (subst handleCmdOutput_loop.simps) (simp add: ReadBytes_def)

lemma handleCmdOutput_loop_line:
  "CHR 0x0A \<notin> set line \<Longrightarrow>
     handleCmdOutput_loop WriteFile (line @ CHR 0x0A # rest) final needPersistentLog logFile secretEnvs st =
       handleCmdOutput_loop WriteFile rest final needPersistentLog logFile secretEnvs
         (let st1 = st\<lparr>stdout := stdout st @ maskSecretEnvs (line @ [CHR 0x0A]) secretEnvs\<rparr>
          in if needPersistentLog
             then (case WriteFile logFile (line @ [CHR 0x0A]) 448 (files st1) of
                     (Some err, fs) \<Rightarrow>
                       st1\<lparr>files := fs, out_log := out_log st1 @
                         [LogWarnf ''Failed to write file when processing cmd output: %s'' err]\<rparr>
                   | (None, fs) \<Rightarrow> st1\<lparr>files := fs\<rparr>)
             else st1)"
  by (subst handleCmdOutput_loop.simps)
     (simp add: ReadBytes_line Let_def)


text \<open>
  Claim C1 does not hold of the code. The handler prints the masked line, but hands the
  line as read (\<open>lineBytes\<close>) to \<open>util.WriteFile\<close>: with the secret entry
  \<open>KEY=SECRETVAL\<close>, persistence requested and the output line \<open>export KEY=SECRETVAL\<close>,
  standard output shows the mask and the log file holds the secret.
\<close>

theorem handleCmdOutput_persists_unmasked:
  "stdout (handleCmdOutput WriteFile_append (''export KEY=SECRETVAL'' @ [CHR 0x0A]) EOF True
          ''job.log'' [''KEY=SECRETVAL''] \<lparr>stdout = [], files = Map.empty, out_log = []\<rparr>)
       = ''export KEY=********'' @ [CHR 0x0A]
   \<and> files (handleCmdOutput WriteFile_append (''export KEY=SECRETVAL'' @ [CHR 0x0A]) EOF True
          ''job.log'' [''KEY=SECRETVAL''] \<lparr>stdout = [], files = Map.empty, out_log = []\<rparr>) ''job.log''
       = Some (''export KEY=SECRETVAL'' @ [CHR 0x0A])"
  using handleCmdOutput_loop_line [of "''export KEY=SECRETVAL''" WriteFile_append "[]" EOF True
      "''job.log''" "[''KEY=SECRETVAL'']" "\<lparr>stdout = [], files = Map.empty, out_log = []\<rparr>"]
  by (simp add: handleCmdOutput_def handleCmdOutput_loop_end WriteFile_append_def
        maskSecretEnvs_def secretEnvMask_def)

section \<open>The step runner (claims C2, C4, C5, C10)\<close>

lemma is_failure_iff: "is_failure ev \<longleftrightarrow> (\<exists>err. ev = Dispatched (Some err))"
  by (cases ev rule: is_failure.cases) auto

lemma failures_Nil_iff: "failures evs = [] \<longleftrightarrow> (\<forall>ev\<in>set evs. \<not> is_failure ev)"
  by (induction evs rule: failures.induct) auto

lemma failures_Cons: "failures (ev # evs) = (if is_failure ev then the (case ev of Dispatched r \<Rightarrow> r) # failures evs else failures evs)"
  by (cases ev rule: is_failure.cases) auto

lemma skips_after_failure_nth:
  "skips_after_failure steps hasFailed evs \<Longrightarrow>
     length evs = length steps \<and>
     (\<forall>i<length steps. (evs ! i = Skipped) =
        ((hasFailed \<or> (\<exists>j<i. is_failure (evs ! j))) \<and> \<not> Onfailure (steps ! i)))"
proof (induction steps hasFailed evs rule: skips_after_failure.induct)
  case (1 hasFailed)
  then show ?case by simp
next
  case (2 s ss hasFailed ev evs)
  then have here: "(ev = Skipped) = (hasFailed \<and> \<not> Onfailure s)"
    and len: "length evs = length ss"
    and rest: "\<forall>i<length ss. (evs ! i = Skipped) =
        (((hasFailed \<or> is_failure ev) \<or> (\<exists>j<i. is_failure (evs ! j))) \<and> \<not> Onfailure (ss ! i))"
    by simp_all
  have "((ev # evs) ! i = Skipped) =
        ((hasFailed \<or> (\<exists>j<i. is_failure ((ev # evs) ! j))) \<and> \<not> Onfailure ((s # ss) ! i))"
    if "i < length (s # ss)" for i
  proof (cases i)
    case 0
    with here show ?thesis by simp
  next
    case (Suc k)
    with that have k: "k < length ss" by simp
    have "(\<exists>j<Suc k. is_failure ((ev # evs) ! j)) = (is_failure ev \<or> (\<exists>j<k. is_failure (evs ! j)))"
      by (auto simp: less_Suc_eq_0_disj)
    with rest k Suc show ?thesis by auto
  qed
  with len show ?case by simp
qed simp_all

lemma RunSteps_loop_events:
  "\<exists>evs1. snd (snd (RunSteps_loop new Run steps workspace paths envs secretEnvs hasFailed respErr st evs0))
            = evs0 @ evs1
     \<and> fst (RunSteps_loop new Run steps workspace paths envs secretEnvs hasFailed respErr st evs0)
            = (if failures evs1 = [] then respErr else Some (last (failures evs1)))
     \<and> skips_after_failure steps hasFailed evs1
     \<and> (\<forall>i<length steps. evs1 ! i \<noteq> Skipped \<longrightarrow>
           (\<exists>sti. evs1 ! i = Dispatched (fst (runStep new Run (steps ! i) workspace paths envs secretEnvs sti))))"
proof (induction steps arbitrary: hasFailed respErr st evs0)
  case Nil
  show ?case by (rule exI [of _ "[]"]) simp
next
  case (Cons stepInfo rest)
  let ?P = "\<lambda>steps evs1. (\<forall>i<length steps. evs1 ! i \<noteq> Skipped \<longrightarrow>
           (\<exists>sti. evs1 ! i = Dispatched (fst (runStep new Run (steps ! i) workspace paths envs secretEnvs sti))))"
  have step: "?P (stepInfo # rest) (ev # evs1)"
    if "?P rest evs1" and "ev \<noteq> Skipped \<longrightarrow> (\<exists>sti. ev = Dispatched (fst (runStep new Run stepInfo workspace paths envs secretEnvs sti)))"
    for ev evs1
  proof (intro allI impI)
    fix i assume "i < length (stepInfo # rest)" "(ev # evs1) ! i \<noteq> Skipped"
    with that show "\<exists>sti. (ev # evs1) ! i = Dispatched (fst (runStep new Run ((stepInfo # rest) ! i) workspace paths envs secretEnvs sti))"
      by (cases i) auto
  qed
  show ?case
  proof (cases "hasFailed \<and> \<not> Onfailure stepInfo")
    case True
    from Cons.IH [of hasFailed respErr st "evs0 @ [Skipped]"] obtain evs1 where
      e: "snd (snd (RunSteps_loop new Run rest workspace paths envs secretEnvs hasFailed respErr st (evs0 @ [Skipped])))
            = (evs0 @ [Skipped]) @ evs1"
      and r: "fst (RunSteps_loop new Run rest workspace paths envs secretEnvs hasFailed respErr st (evs0 @ [Skipped]))
            = (if failures evs1 = [] then respErr else Some (last (failures evs1)))"
      and s: "skips_after_failure rest hasFailed evs1" and p: "?P rest evs1"
      by blast
    have "?P (stepInfo # rest) (Skipped # evs1)" using step [OF p, of Skipped] by simp
    with True e r s show ?thesis
      by (intro exI [of _ "Skipped # evs1"]) simp
  next
    case False
    obtain res st' where rs: "runStep new Run stepInfo workspace paths envs secretEnvs st = (res, st')"
      by (cases "runStep new Run stepInfo workspace paths envs secretEnvs st")
    show ?thesis
    proof (cases res)
      case None
      from Cons.IH [of hasFailed respErr st' "evs0 @ [Dispatched None]"] obtain evs1 where
        e: "snd (snd (RunSteps_loop new Run rest workspace paths envs secretEnvs hasFailed respErr st' (evs0 @ [Dispatched None])))
            = (evs0 @ [Dispatched None]) @ evs1"
        and r: "fst (RunSteps_loop new Run rest workspace paths envs secretEnvs hasFailed respErr st' (evs0 @ [Dispatched None]))
            = (if failures evs1 = [] then respErr else Some (last (failures evs1)))"
        and s: "skips_after_failure rest hasFailed evs1" and p: "?P rest evs1"
        by blast
      have "?P (stepInfo # rest) (Dispatched None # evs1)"
        using step [OF p, of "Dispatched None"] rs None by (metis fst_conv)
      with False rs None e r s show ?thesis
        by (intro exI [of _ "Dispatched None # evs1"]) auto
    next
      case (Some err)
      from Cons.IH [of True "Some err" st' "evs0 @ [Dispatched (Some err)]"] obtain evs1 where
        e: "snd (snd (RunSteps_loop new Run rest workspace paths envs secretEnvs True (Some err) st' (evs0 @ [Dispatched (Some err)])))
            = (evs0 @ [Dispatched (Some err)]) @ evs1"
        and r: "fst (RunSteps_loop new Run rest workspace paths envs secretEnvs True (Some err) st' (evs0 @ [Dispatched (Some err)]))
            = (if failures evs1 = [] then Some err else Some (last (failures evs1)))"
        and s: "skips_after_failure rest True evs1" and p: "?P rest evs1"
        by blast
      have "?P (stepInfo # rest) (Dispatched (Some err) # evs1)"
        using step [OF p, of "Dispatched (Some err)"] rs Some by (metis fst_conv)
      with False rs Some e r s show ?thesis
        by (intro exI [of _ "Dispatched (Some err) # evs1"]) auto
    qed
  qed
qed



lemma RunSteps_summary:
  assumes "RunSteps new Run steps workspace paths envs secretEnvs st = (r, st', evs)"
  shows "length evs = length steps"
    and "\<forall>i<length steps. (evs ! i = Skipped) =
           ((\<exists>j<i. is_failure (evs ! j)) \<and> \<not> Onfailure (steps ! i))"
    and "r = (if failures evs = [] then None else Some (last (failures evs)))"
    and "\<forall>i<length steps. evs ! i \<noteq> Skipped \<longrightarrow>
           (\<exists>sti. evs ! i = Dispatched (fst (runStep new Run (steps ! i) workspace paths envs secretEnvs sti)))"
proof -
  from RunSteps_loop_events [of new Run steps workspace paths envs secretEnvs False None st "[]"]
  obtain evs1 where
    e: "snd (snd (RunSteps_loop new Run steps workspace paths envs secretEnvs False None st [])) = [] @ evs1"
    and r: "fst (RunSteps_loop new Run steps workspace paths envs secretEnvs False None st [])
            = (if failures evs1 = [] then None else Some (last (failures evs1)))"
    and s: "skips_after_failure steps False evs1"
    and p: "\<forall>i<length steps. evs1 ! i \<noteq> Skipped \<longrightarrow>
           (\<exists>sti. evs1 ! i = Dispatched (fst (runStep new Run (steps ! i) workspace paths envs secretEnvs sti)))"
    by blast
  from e assms have evs: "evs1 = evs" by (simp add: RunSteps_def)
  from r assms evs show "r = (if failures evs = [] then None else Some (last (failures evs)))"
    by (simp add: RunSteps_def)
  from skips_after_failure_nth [OF s] evs show "length evs = length steps"
    and "\<forall>i<length steps. (evs ! i = Skipped) =
           ((\<exists>j<i. is_failure (evs ! j)) \<and> \<not> Onfailure (steps ! i))"
    by simp_all
  from p evs show "\<forall>i<length steps. evs ! i \<noteq> Skipped \<longrightarrow>
           (\<exists>sti. evs ! i = Dispatched (fst (runStep new Run (steps ! i) workspace paths envs secretEnvs sti)))"
    by simp
qed



lemma stepCall_None_iff:
  "stepCall step workspace paths envs secretEnvs = None \<longleftrightarrow>
     StepType step \<notin> {''shell'', ''git'', ''docker_build'', ''tools'', ''archive'',
                        ''junit_report'', ''tar_archive'', ''sonar_check''}"
  by (simp add: stepCall_def)

lemma construct_and_run_not_Errorf:
  "fst (construct_and_run new Run call st) \<noteq> Some (Errorf m)"
  by (auto simp: construct_and_run_def split: prod.splits sum.splits option.splits)

lemma runStep_unknown:
  assumes "StepType step \<notin> {''shell'', ''git'', ''docker_build'', ''tools'', ''archive'',
                        ''junit_report'', ''tar_archive'', ''sonar_check''}"
  shows "runStep new Run step workspace paths envs secretEnvs st =
           (Some (Errorf (''step type: '' @ StepType step @ '' does not match any known type'')),
            st\<lparr>logged := logged st @
              [LogError (Errorf (''step type: '' @ StepType step @ '' does not match any known type''))]\<rparr>)"
proof -
  have "stepCall step workspace paths envs secretEnvs = None"
    using assms stepCall_None_iff [of step workspace paths envs secretEnvs] by blast
  then show ?thesis by (simp add: runStep_def Let_def)
qed

lemma runStep_known:
  assumes "StepType step \<in> {''shell'', ''git'', ''docker_build'', ''tools'', ''archive'',
                        ''junit_report'', ''tar_archive'', ''sonar_check''}"
  shows "fst (runStep new Run step workspace paths envs secretEnvs st) \<noteq> Some (Errorf m)"
proof -
  have "stepCall step workspace paths envs secretEnvs \<noteq> None"
    using assms stepCall_None_iff [of step workspace paths envs secretEnvs] by blast
  then obtain call where "stepCall step workspace paths envs secretEnvs = Some call" by blast
  then show ?thesis by (simp add: runStep_def construct_and_run_not_Errorf)
qed

lemma RunSteps_unknown_recorded:
  assumes run: "RunSteps new Run steps workspace paths envs secretEnvs st = (r, st', evs)"
    and i: "i < length steps"
    and u: "StepType (steps ! i) \<notin> {''shell'', ''git'', ''docker_build'', ''tools'', ''archive'',
                        ''junit_report'', ''tar_archive'', ''sonar_check''}"
    and d: "evs ! i \<noteq> Skipped"
  shows "evs ! i = Dispatched (Some (Errorf
            (''step type: '' @ StepType (steps ! i) @ '' does not match any known type'')))"
    and "r \<noteq> None"
    and "length evs = length steps"
    and "\<forall>j. i < j \<and> j < length steps \<longrightarrow> (evs ! j \<noteq> Skipped \<longleftrightarrow> Onfailure (steps ! j))"
proof -
  note s = RunSteps_summary [OF run]
  from s(4) i d obtain sti where
    "evs ! i = Dispatched (fst (runStep new Run (steps ! i) workspace paths envs secretEnvs sti))"
    by blast
  then show ev: "evs ! i = Dispatched (Some (Errorf
            (''step type: '' @ StepType (steps ! i) @ '' does not match any known type'')))"
    by (simp add: runStep_unknown [OF u])
  show len: "length evs = length steps" by (rule s(1))
  from ev have f: "is_failure (evs ! i)" by simp
  with i len have "failures evs \<noteq> []"
    by (auto simp: failures_Nil_iff)
  with s(3) show "r \<noteq> None" by simp
  show "\<forall>j. i < j \<and> j < length steps \<longrightarrow> (evs ! j \<noteq> Skipped \<longleftrightarrow> Onfailure (steps ! j))"
  proof (intro allI impI)
    fix j assume j: "i < j \<and> j < length steps"
    with f have "\<exists>k<j. is_failure (evs ! k)" by blast
    with s(2) j show "evs ! j \<noteq> Skipped \<longleftrightarrow> Onfailure (steps ! j)" by simp
  qed
qed


lemma RunSteps_loop_states:
  "\<exists>evs1. snd (snd (RunSteps_loop new Run steps workspace paths envs secretEnvs hasFailed respErr st evs0))
            = evs0 @ evs1
     \<and> length evs1 = length steps
     \<and> fst (snd (RunSteps_loop new Run steps workspace paths envs secretEnvs hasFailed respErr st evs0))
            = fold (\<lambda>step s. snd (runStep new Run step workspace paths envs secretEnvs s))
                (dispatched_steps steps evs1) st
     \<and> (\<forall>i<length steps. evs1 ! i \<noteq> Skipped \<longrightarrow>
           evs1 ! i = Dispatched (fst (runStep new Run (steps ! i) workspace paths envs secretEnvs
             (fold (\<lambda>step s. snd (runStep new Run step workspace paths envs secretEnvs s))
                (dispatched_steps (take i steps) (take i evs1)) st))))"
proof (induction steps arbitrary: hasFailed respErr st evs0)
  case Nil
  show ?case by (rule exI [of _ "[]"]) simp
next
  case (Cons stepInfo rest)
  let ?F = "\<lambda>step s. snd (runStep new Run step workspace paths envs secretEnvs s)"
  let ?Q = "\<lambda>steps evs1 st. (\<forall>i<length steps. evs1 ! i \<noteq> Skipped \<longrightarrow>
           evs1 ! i = Dispatched (fst (runStep new Run (steps ! i) workspace paths envs secretEnvs
             (fold ?F (dispatched_steps (take i steps) (take i evs1)) st))))"
  show ?case
  proof (cases "hasFailed \<and> \<not> Onfailure stepInfo")
    case True
    from Cons.IH [of hasFailed respErr st "evs0 @ [Skipped]"] obtain evs1 where
      e: "snd (snd (RunSteps_loop new Run rest workspace paths envs secretEnvs hasFailed respErr st (evs0 @ [Skipped])))
            = (evs0 @ [Skipped]) @ evs1"
      and l: "length evs1 = length rest"
      and s: "fst (snd (RunSteps_loop new Run rest workspace paths envs secretEnvs hasFailed respErr st (evs0 @ [Skipped])))
            = fold ?F (dispatched_steps rest evs1) st"
      and q: "?Q rest evs1 st"
      by blast
    have "?Q (stepInfo # rest) (Skipped # evs1) st"
    proof (intro allI impI)
      fix i assume i: "i < length (stepInfo # rest)" and d: "(Skipped # evs1) ! i \<noteq> Skipped"
      then obtain k where k: "i = Suc k" by (cases i) auto
      with i d q show "(Skipped # evs1) ! i = Dispatched (fst (runStep new Run ((stepInfo # rest) ! i) workspace paths envs secretEnvs
             (fold ?F (dispatched_steps (take i (stepInfo # rest)) (take i (Skipped # evs1))) st)))"
        by simp
    qed
    with True e l s show ?thesis
      by (intro exI [of _ "Skipped # evs1"]) simp
  next
    case False
    obtain res st1 where rs: "runStep new Run stepInfo workspace paths envs secretEnvs st = (res, st1)"
      by (cases "runStep new Run stepInfo workspace paths envs secretEnvs st")
    define hf' where "hf' = (if res = None then hasFailed else True)"
    define re' where "re' = (if res = None then respErr else res)"
    have unfold: "RunSteps_loop new Run (stepInfo # rest) workspace paths envs secretEnvs hasFailed respErr st evs0
        = RunSteps_loop new Run rest workspace paths envs secretEnvs hf' re' st1 (evs0 @ [Dispatched res])"
      using False rs by (cases res) (auto simp: hf'_def re'_def)
    from Cons.IH [of hf' re' st1 "evs0 @ [Dispatched res]"] obtain evs1 where
      e: "snd (snd (RunSteps_loop new Run rest workspace paths envs secretEnvs hf' re' st1 (evs0 @ [Dispatched res])))
            = (evs0 @ [Dispatched res]) @ evs1"
      and l: "length evs1 = length rest"
      and s: "fst (snd (RunSteps_loop new Run rest workspace paths envs secretEnvs hf' re' st1 (evs0 @ [Dispatched res])))
            = fold ?F (dispatched_steps rest evs1) st1"
      and q: "?Q rest evs1 st1"
      by blast
    have st1: "st1 = ?F stepInfo st" using rs by simp
    have "?Q (stepInfo # rest) (Dispatched res # evs1) st"
    proof (intro allI impI)
      fix i assume i: "i < length (stepInfo # rest)" and d: "(Dispatched res # evs1) ! i \<noteq> Skipped"
      show "(Dispatched res # evs1) ! i = Dispatched (fst (runStep new Run ((stepInfo # rest) ! i) workspace paths envs secretEnvs
             (fold ?F (dispatched_steps (take i (stepInfo # rest)) (take i (Dispatched res # evs1))) st)))"
      proof (cases i)
        case 0
        with rs show ?thesis by simp
      next
        case (Suc k)
        with i d q st1 show ?thesis by simp
      qed
    qed
    with unfold e l s st1 show ?thesis
      by (intro exI [of _ "Dispatched res # evs1"]) simp
  qed
qed

lemma RunSteps_states:
  assumes "RunSteps new Run steps workspace paths envs secretEnvs st = (r, st', evs)"
  shows "st' = fold (\<lambda>step s. snd (runStep new Run step workspace paths envs secretEnvs s))
                (dispatched_steps steps evs) st"
    and "\<forall>i<length steps. evs ! i \<noteq> Skipped \<longrightarrow>
           evs ! i = Dispatched (fst (runStep new Run (steps ! i) workspace paths envs secretEnvs
             (fold (\<lambda>step s. snd (runStep new Run step workspace paths envs secretEnvs s))
                (dispatched_steps (take i steps) (take i evs)) st)))"
proof -
  from RunSteps_loop_states [of new Run steps workspace paths envs secretEnvs False None st "[]"]
  obtain evs1 where
    e: "snd (snd (RunSteps_loop new Run steps workspace paths envs secretEnvs False None st [])) = [] @ evs1"
    and s: "fst (snd (RunSteps_loop new Run steps workspace paths envs secretEnvs False None st []))
            = fold (\<lambda>step s. snd (runStep new Run step workspace paths envs secretEnvs s))
                (dispatched_steps steps evs1) st"
    and q: "\<forall>i<length steps. evs1 ! i \<noteq> Skipped \<longrightarrow>
           evs1 ! i = Dispatched (fst (runStep new Run (steps ! i) workspace paths envs secretEnvs
             (fold (\<lambda>step s. snd (runStep new Run step workspace paths envs secretEnvs s))
                (dispatched_steps (take i steps) (take i evs1)) st)))"
    by blast
  from e assms have evs: "evs1 = evs" by (simp add: RunSteps_def)
  from s assms evs show "st' = fold (\<lambda>step s. snd (runStep new Run step workspace paths envs secretEnvs s))
                (dispatched_steps steps evs) st"
    by (simp add: RunSteps_def)
  from q evs show "\<forall>i<length steps. evs ! i \<noteq> Skipped \<longrightarrow>
           evs ! i = Dispatched (fst (runStep new Run (steps ! i) workspace paths envs secretEnvs
             (fold (\<lambda>step s. snd (runStep new Run step workspace paths envs secretEnvs s))
                (dispatched_steps (take i steps) (take i evs)) st)))"
    by simp
qed

lemma runStep_executor:
  assumes "(StepType step = ''shell'' \<and> call = NewShellStep (Spec step) workspace paths envs secretEnvs)
     \<or> (StepType step = ''git'' \<and> call = NewGitStep (Spec step) workspace envs secretEnvs)
     \<or> (StepType step = ''docker_build'' \<and> call = NewDockerBuildStep (Spec step) workspace envs secretEnvs)
     \<or> (StepType step = ''tools'' \<and> call = NewToolInstallStep (Spec step) workspace envs secretEnvs)
     \<or> (StepType step = ''archive'' \<and> call = NewArchiveStep (Spec step) workspace envs secretEnvs)
     \<or> (StepType step = ''junit_report'' \<and> call = NewJunitReportStep (Spec step) workspace envs secretEnvs)
     \<or> (StepType step = ''tar_archive'' \<and> call = NewTararchiveStep (Spec step) workspace envs secretEnvs)
     \<or> (StepType step = ''sonar_check'' \<and> call = NewSonarCheckStep (Spec step) workspace envs secretEnvs)"
  shows "new call (world st) = (Inl m, w) \<Longrightarrow>
           runStep new Run step workspace paths envs secretEnvs st = (Some (Collab m), st\<lparr>world := w\<rparr>)"
    and "new call (world st) = (Inr stepInstance, w) \<Longrightarrow> Run stepInstance w = (Some m, w') \<Longrightarrow>
           runStep new Run step workspace paths envs secretEnvs st =
             (Some (Collab m), st\<lparr>world := w', logged := logged st @ [LogError (Collab m)]\<rparr>)"
    and "new call (world st) = (Inr stepInstance, w) \<Longrightarrow> Run stepInstance w = (None, w') \<Longrightarrow>
           runStep new Run step workspace paths envs secretEnvs st = (None, st\<lparr>world := w'\<rparr>)"
proof -
  have c: "stepCall step workspace paths envs secretEnvs = Some call"
    using assms by (auto simp: stepCall_def)
  show "new call (world st) = (Inl m, w) \<Longrightarrow>
           runStep new Run step workspace paths envs secretEnvs st = (Some (Collab m), st\<lparr>world := w\<rparr>)"
    by (simp add: runStep_def c construct_and_run_def)
  show "new call (world st) = (Inr stepInstance, w) \<Longrightarrow> Run stepInstance w = (Some m, w') \<Longrightarrow>
           runStep new Run step workspace paths envs secretEnvs st =
             (Some (Collab m), st\<lparr>world := w', logged := logged st @ [LogError (Collab m)]\<rparr>)"
    by (simp add: runStep_def c construct_and_run_def)
  show "new call (world st) = (Inr stepInstance, w) \<Longrightarrow> Run stepInstance w = (None, w') \<Longrightarrow>
           runStep new Run step workspace paths envs secretEnvs st = (None, st\<lparr>world := w'\<rparr>)"
    by (simp add: runStep_def c construct_and_run_def)
qed

lemma recording_steps_unknown_run:
  "RunSteps recording_new recording_Run example_steps_unknown ''ws'' ''bin'' [] []
       \<lparr>world = [], logged = []\<rparr>
     = (Some (Errorf ''step type: tool_install does not match any known type''),
        \<lparr>world = [Constructed (NewGitStep False ''ws'' [] []),
                  Ran (NewGitStep False ''ws'' [] []),
                  Constructed (NewToolInstallStep False ''ws'' [] []),
                  Ran (NewToolInstallStep False ''ws'' [] [])],
          logged = [LogError (Errorf ''step type: tool_install does not match any known type'')]\<rparr>,
        [Dispatched None,
         Dispatched (Some (Errorf ''step type: tool_install does not match any known type'')),
         Skipped, Dispatched None])"
  by (simp add: RunSteps_def example_steps_unknown_def runStep_def stepCall_def
        construct_and_run_def recording_new_def recording_Run_def Let_def)


text \<open>
  Claim C2, as stated, fails: the switch of \<open>runStep\<close> has the case \<open>tools\<close>, not
  \<open>tool_install\<close>. A step of type \<open>tool_install\<close> gets the unknown-type error, and a step
  of type \<open>tools\<close>, which is outside the claim's enumeration, is run.
\<close>

theorem runStep_tool_install_unknown:
  "runStep example_new example_Run \<lparr>StepType = ''tool_install'', Spec = False, Onfailure = False\<rparr>
      ''ws'' ''bin'' [] [] \<lparr>world = (), logged = []\<rparr>
    = (Some (Errorf ''step type: tool_install does not match any known type''),
       \<lparr>world = (),
         logged = [LogError (Errorf ''step type: tool_install does not match any known type'')]\<rparr>)
   \<and> runStep example_new example_Run \<lparr>StepType = ''tools'', Spec = False, Onfailure = False\<rparr>
      ''ws'' ''bin'' [] [] \<lparr>world = (), logged = []\<rparr>
    = (None, \<lparr>world = (), logged = []\<rparr>)"
  by (simp add: runStep_def stepCall_def construct_and_run_def example_new_def example_Run_def Let_def)

text \<open>
  Claim C2, amended: the eight step types are \<open>shell\<close>, \<open>git\<close>, \<open>docker_build\<close>, \<open>tools\<close>,
  \<open>archive\<close>, \<open>junit_report\<close>, \<open>tar_archive\<close> and \<open>sonar_check\<close>. For a step of one of
  these types \<open>runStep\<close> applies the constructor of that type, \<open>new\<close>, to the step's
  payload and the arguments in the world of the state: when the constructor fails,
  its error is returned and the world is the one it left; when it succeeds, \<open>Run\<close> is
  applied to the instance in the world the constructor left, and its error (logged) or
  nil is returned with the world \<open>Run\<close> left. The unknown-type error is never returned.
  For every other type (\<open>tool_install\<close> included) \<open>runStep\<close> leaves the world as it is
  (no collaborator is called), logs and returns the error
  "step type: T does not match any known type". When \<open>RunSteps\<close> passes such a step to
  \<open>runStep\<close>, that error is recorded as the step's failure and the returned error is
  not nil; the run goes on to the end of the list, the later steps being run exactly
  when their \<open>Onfailure\<close> flag is set: the final state is the initial state taken
  through \<open>runStep\<close> by the steps that were not skipped, in order, and each event of such
  a step carries what \<open>runStep\<close> returned in the state the earlier ones left.
\<close>

theorem runStep_dispatch_amended:
  "(\<forall>call.
       (StepType step = ''shell'' \<and> call = NewShellStep (Spec step) workspace paths envs secretEnvs)
       \<or> (StepType step = ''git'' \<and> call = NewGitStep (Spec step) workspace envs secretEnvs)
       \<or> (StepType step = ''docker_build'' \<and> call = NewDockerBuildStep (Spec step) workspace envs secretEnvs)
       \<or> (StepType step = ''tools'' \<and> call = NewToolInstallStep (Spec step) workspace envs secretEnvs)
       \<or> (StepType step = ''archive'' \<and> call = NewArchiveStep (Spec step) workspace envs secretEnvs)
       \<or> (StepType step = ''junit_report'' \<and> call = NewJunitReportStep (Spec step) workspace envs secretEnvs)
       \<or> (StepType step = ''tar_archive'' \<and> call = NewTararchiveStep (Spec step) workspace envs secretEnvs)
       \<or> (StepType step = ''sonar_check'' \<and> call = NewSonarCheckStep (Spec step) workspace envs secretEnvs)
      \<longrightarrow>
        (\<forall>m w. new call (world st) = (Inl m, w) \<longrightarrow>
           runStep new Run step workspace paths envs secretEnvs st = (Some (Collab m), st\<lparr>world := w\<rparr>))
        \<and> (\<forall>stepInstance w m w'.
             new call (world st) = (Inr stepInstance, w) \<and> Run stepInstance w = (Some m, w') \<longrightarrow>
             runStep new Run step workspace paths envs secretEnvs st =
               (Some (Collab m), st\<lparr>world := w', logged := logged st @ [LogError (Collab m)]\<rparr>))
        \<and> (\<forall>stepInstance w w'.
             new call (world st) = (Inr stepInstance, w) \<and> Run stepInstance w = (None, w') \<longrightarrow>
             runStep new Run step workspace paths envs secretEnvs st = (None, st\<lparr>world := w'\<rparr>)))
   \<and> (StepType step \<in> {''shell'', ''git'', ''docker_build'', ''tools'', ''archive'',
                         ''junit_report'', ''tar_archive'', ''sonar_check''} \<longrightarrow>
        (\<forall>m. fst (runStep new Run step workspace paths envs secretEnvs st) \<noteq> Some (Errorf m)))
   \<and> (StepType step \<notin> {''shell'', ''git'', ''docker_build'', ''tools'', ''archive'',
                         ''junit_report'', ''tar_archive'', ''sonar_check''} \<longrightarrow>
        runStep new Run step workspace paths envs secretEnvs st =
          (Some (Errorf (''step type: '' @ StepType step @ '' does not match any known type'')),
           st\<lparr>logged := logged st @
             [LogError (Errorf (''step type: '' @ StepType step @ '' does not match any known type''))]\<rparr>))
   \<and> (RunSteps new Run steps workspace paths envs secretEnvs st = (r, st', evs)
        \<and> i < length steps
        \<and> StepType (steps ! i) \<notin> {''shell'', ''git'', ''docker_build'', ''tools'', ''archive'',
                         ''junit_report'', ''tar_archive'', ''sonar_check''}
        \<and> evs ! i \<noteq> Skipped \<longrightarrow>
          evs ! i = Dispatched (Some (Errorf
            (''step type: '' @ StepType (steps ! i) @ '' does not match any known type'')))
          \<and> r \<noteq> None
          \<and> length evs = length steps
          \<and> (\<forall>j. i < j \<and> j < length steps \<longrightarrow> (evs ! j \<noteq> Skipped \<longleftrightarrow> Onfailure (steps ! j)))
          \<and> st' = fold (\<lambda>step s. snd (runStep new Run step workspace paths envs secretEnvs s))
                    (dispatched_steps steps evs) st
          \<and> (\<forall>j<length steps. evs ! j \<noteq> Skipped \<longrightarrow>
                evs ! j = Dispatched (fst (runStep new Run (steps ! j) workspace paths envs secretEnvs
                  (fold (\<lambda>step s. snd (runStep new Run step workspace paths envs secretEnvs s))
                     (dispatched_steps (take j steps) (take j evs)) st)))))"
proof -
  have exec: "(\<forall>call.
       (StepType step = ''shell'' \<and> call = NewShellStep (Spec step) workspace paths envs secretEnvs)
       \<or> (StepType step = ''git'' \<and> call = NewGitStep (Spec step) workspace envs secretEnvs)
       \<or> (StepType step = ''docker_build'' \<and> call = NewDockerBuildStep (Spec step) workspace envs secretEnvs)
       \<or> (StepType step = ''tools'' \<and> call = NewToolInstallStep (Spec step) workspace envs secretEnvs)
       \<or> (StepType step = ''archive'' \<and> call = NewArchiveStep (Spec step) workspace envs secretEnvs)
       \<or> (StepType step = ''junit_report'' \<and> call = NewJunitReportStep (Spec step) workspace envs secretEnvs)
       \<or> (StepType step = ''tar_archive'' \<and> call = NewTararchiveStep (Spec step) workspace envs secretEnvs)
       \<or> (StepType step = ''sonar_check'' \<and> call = NewSonarCheckStep (Spec step) workspace envs secretEnvs)
      \<longrightarrow>
        (\<forall>m w. new call (world st) = (Inl m, w) \<longrightarrow>
           runStep new Run step workspace paths envs secretEnvs st = (Some (Collab m), st\<lparr>world := w\<rparr>))
        \<and> (\<forall>stepInstance w m w'.
             new call (world st) = (Inr stepInstance, w) \<and> Run stepInstance w = (Some m, w') \<longrightarrow>
             runStep new Run step workspace paths envs secretEnvs st =
               (Some (Collab m), st\<lparr>world := w', logged := logged st @ [LogError (Collab m)]\<rparr>))
        \<and> (\<forall>stepInstance w w'.
             new call (world st) = (Inr stepInstance, w) \<and> Run stepInstance w = (None, w') \<longrightarrow>
             runStep new Run step workspace paths envs secretEnvs st = (None, st\<lparr>world := w'\<rparr>)))"
  proof (intro allI impI conjI)
    fix call m w
    assume c: "(StepType step = ''shell'' \<and> call = NewShellStep (Spec step) workspace paths envs secretEnvs)
       \<or> (StepType step = ''git'' \<and> call = NewGitStep (Spec step) workspace envs secretEnvs)
       \<or> (StepType step = ''docker_build'' \<and> call = NewDockerBuildStep (Spec step) workspace envs secretEnvs)
       \<or> (StepType step = ''tools'' \<and> call = NewToolInstallStep (Spec step) workspace envs secretEnvs)
       \<or> (StepType step = ''archive'' \<and> call = NewArchiveStep (Spec step) workspace envs secretEnvs)
       \<or> (StepType step = ''junit_report'' \<and> call = NewJunitReportStep (Spec step) workspace envs secretEnvs)
       \<or> (StepType step = ''tar_archive'' \<and> call = NewTararchiveStep (Spec step) workspace envs secretEnvs)
       \<or> (StepType step = ''sonar_check'' \<and> call = NewSonarCheckStep (Spec step) workspace envs secretEnvs)"
      and n: "new call (world st) = (Inl m, w)"
    show "runStep new Run step workspace paths envs secretEnvs st = (Some (Collab m), st\<lparr>world := w\<rparr>)"
      using c n by (rule runStep_executor(1))
  next
    fix call stepInstance w m w'
    assume c: "(StepType step = ''shell'' \<and> call = NewShellStep (Spec step) workspace paths envs secretEnvs)
       \<or> (StepType step = ''git'' \<and> call = NewGitStep (Spec step) workspace envs secretEnvs)
       \<or> (StepType step = ''docker_build'' \<and> call = NewDockerBuildStep (Spec step) workspace envs secretEnvs)
       \<or> (StepType step = ''tools'' \<and> call = NewToolInstallStep (Spec step) workspace envs secretEnvs)
       \<or> (StepType step = ''archive'' \<and> call = NewArchiveStep (Spec step) workspace envs secretEnvs)
       \<or> (StepType step = ''junit_report'' \<and> call = NewJunitReportStep (Spec step) workspace envs secretEnvs)
       \<or> (StepType step = ''tar_archive'' \<and> call = NewTararchiveStep (Spec step) workspace envs secretEnvs)
       \<or> (StepType step = ''sonar_check'' \<and> call = NewSonarCheckStep (Spec step) workspace envs secretEnvs)"
      and n: "new call (world st) = (Inr stepInstance, w) \<and> Run stepInstance w = (Some m, w')"
    show "runStep new Run step workspace paths envs secretEnvs st =
       (Some (Collab m), st\<lparr>world := w', logged := logged st @ [LogError (Collab m)]\<rparr>)"
      using c n [THEN conjunct1] n [THEN conjunct2] by (rule runStep_executor(2))
  next
    fix call stepInstance w w'
    assume c: "(StepType step = ''shell'' \<and> call = NewShellStep (Spec step) workspace paths envs secretEnvs)
       \<or> (StepType step = ''git'' \<and> call = NewGitStep (Spec step) workspace envs secretEnvs)
       \<or> (StepType step = ''docker_build'' \<and> call = NewDockerBuildStep (Spec step) workspace envs secretEnvs)
       \<or> (StepType step = ''tools'' \<and> call = NewToolInstallStep (Spec step) workspace envs secretEnvs)
       \<or> (StepType step = ''archive'' \<and> call = NewArchiveStep (Spec step) workspace envs secretEnvs)
       \<or> (StepType step = ''junit_report'' \<and> call = NewJunitReportStep (Spec step) workspace envs secretEnvs)
       \<or> (StepType step = ''tar_archive'' \<and> call = NewTararchiveStep (Spec step) workspace envs secretEnvs)
       \<or> (StepType step = ''sonar_check'' \<and> call = NewSonarCheckStep (Spec step) workspace envs secretEnvs)"
      and n: "new call (world st) = (Inr stepInstance, w) \<and> Run stepInstance w = (None, w')"
    show "runStep new Run step workspace paths envs secretEnvs st = (None, st\<lparr>world := w'\<rparr>)"
      using c n [THEN conjunct1] n [THEN conjunct2] by (rule runStep_executor(3))
  qed
  have noerr: "(StepType step \<in> {''shell'', ''git'', ''docker_build'', ''tools'', ''archive'',
                         ''junit_report'', ''tar_archive'', ''sonar_check''} \<longrightarrow>
        (\<forall>m. fst (runStep new Run step workspace paths envs secretEnvs st) \<noteq> Some (Errorf m)))"
    using runStep_known [of step new Run workspace paths envs secretEnvs st] by blast
  have unknown: "(StepType step \<notin> {''shell'', ''git'', ''docker_build'', ''tools'', ''archive'',
                         ''junit_report'', ''tar_archive'', ''sonar_check''} \<longrightarrow>
        runStep new Run step workspace paths envs secretEnvs st =
          (Some (Errorf (''step type: '' @ StepType step @ '' does not match any known type'')),
           st\<lparr>logged := logged st @
             [LogError (Errorf (''step type: '' @ StepType step @ '' does not match any known type''))]\<rparr>))"
    using runStep_unknown [of step new Run workspace paths envs secretEnvs st] by blast
  have rec: "(RunSteps new Run steps workspace paths envs secretEnvs st = (r, st', evs)
        \<and> i < length steps
        \<and> StepType (steps ! i) \<notin> {''shell'', ''git'', ''docker_build'', ''tools'', ''archive'',
                         ''junit_report'', ''tar_archive'', ''sonar_check''}
        \<and> evs ! i \<noteq> Skipped \<longrightarrow>
          evs ! i = Dispatched (Some (Errorf
            (''step type: '' @ StepType (steps ! i) @ '' does not match any known type'')))
          \<and> r \<noteq> None
          \<and> length evs = length steps
          \<and> (\<forall>j. i < j \<and> j < length steps \<longrightarrow> (evs ! j \<noteq> Skipped \<longleftrightarrow> Onfailure (steps ! j)))
          \<and> st' = fold (\<lambda>step s. snd (runStep new Run step workspace paths envs secretEnvs s))
                    (dispatched_steps steps evs) st
          \<and> (\<forall>j<length steps. evs ! j \<noteq> Skipped \<longrightarrow>
                evs ! j = Dispatched (fst (runStep new Run (steps ! j) workspace paths envs secretEnvs
                  (fold (\<lambda>step s. snd (runStep new Run step workspace paths envs secretEnvs s))
                     (dispatched_steps (take j steps) (take j evs)) st)))))"
  proof (intro impI)
    assume a: "RunSteps new Run steps workspace paths envs secretEnvs st = (r, st', evs)
        \<and> i < length steps
        \<and> StepType (steps ! i) \<notin> {''shell'', ''git'', ''docker_build'', ''tools'', ''archive'',
                         ''junit_report'', ''tar_archive'', ''sonar_check''}
        \<and> evs ! i \<noteq> Skipped"
    then have run: "RunSteps new Run steps workspace paths envs secretEnvs st = (r, st', evs)"
      and i: "i < length steps"
      and un: "StepType (steps ! i) \<notin> {''shell'', ''git'', ''docker_build'', ''tools'', ''archive'',
                         ''junit_report'', ''tar_archive'', ''sonar_check''}"
      and d: "evs ! i \<noteq> Skipped"
      by blast+
    note u = RunSteps_unknown_recorded [OF run i un d]
    note t = RunSteps_states [OF run]
    from u(1) u(2) u(3) u(4) t(1) t(2)
    show "evs ! i = Dispatched (Some (Errorf
            (''step type: '' @ StepType (steps ! i) @ '' does not match any known type'')))
          \<and> r \<noteq> None
          \<and> length evs = length steps
          \<and> (\<forall>j. i < j \<and> j < length steps \<longrightarrow> (evs ! j \<noteq> Skipped \<longleftrightarrow> Onfailure (steps ! j)))
          \<and> st' = fold (\<lambda>step s. snd (runStep new Run step workspace paths envs secretEnvs s))
                    (dispatched_steps steps evs) st
          \<and> (\<forall>j<length steps. evs ! j \<noteq> Skipped \<longrightarrow>
                evs ! j = Dispatched (fst (runStep new Run (steps ! j) workspace paths envs secretEnvs
                  (fold (\<lambda>step s. snd (runStep new Run step workspace paths envs secretEnvs s))
                     (dispatched_steps (take j steps) (take j evs)) st))))"
      by (intro conjI)
  qed
  from exec noerr unknown rec show ?thesis by (intro conjI)
qed

theorem runStep_dispatch_amended_witness:
  "runStep recording_new recording_Run \<lparr>StepType = ''tools'', Spec = False, Onfailure = True\<rparr>
       ''ws'' ''bin'' [] [] \<lparr>world = [], logged = []\<rparr>
     = (None, \<lparr>world = [Constructed (NewToolInstallStep False ''ws'' [] []),
                         Ran (NewToolInstallStep False ''ws'' [] [])],
                logged = []\<rparr>)
   \<and> RunSteps recording_new recording_Run example_steps_unknown ''ws'' ''bin'' [] []
       \<lparr>world = [], logged = []\<rparr>
     = (Some (Errorf ''step type: tool_install does not match any known type''),
        \<lparr>world = [Constructed (NewGitStep False ''ws'' [] []),
                  Ran (NewGitStep False ''ws'' [] []),
                  Constructed (NewToolInstallStep False ''ws'' [] []),
                  Ran (NewToolInstallStep False ''ws'' [] [])],
          logged = [LogError (Errorf ''step type: tool_install does not match any known type'')]\<rparr>,
        [Dispatched None,
         Dispatched (Some (Errorf ''step type: tool_install does not match any known type'')),
         Skipped, Dispatched None])
   \<and> StepType (example_steps_unknown ! 1) = ''tool_install''
   \<and> \<not> Onfailure (example_steps_unknown ! 2)
   \<and> Onfailure (example_steps_unknown ! 3)"
proof -
  have n: "recording_new (NewToolInstallStep False ''ws'' [] []) (world \<lparr>world = [], logged = []\<rparr>)
      = (Inr (NewToolInstallStep False ''ws'' [] []), [Constructed (NewToolInstallStep False ''ws'' [] [])])"
    by (simp add: recording_new_def)
  have u: "recording_Run (NewToolInstallStep False ''ws'' [] []) [Constructed (NewToolInstallStep False ''ws'' [] [])]
      = (None, [Constructed (NewToolInstallStep False ''ws'' [] []),
                Ran (NewToolInstallStep False ''ws'' [] [])])"
    by (simp add: recording_Run_def)
  note t = runStep_dispatch_amended [where step = "\<lparr>StepType = ''tools'', Spec = False, Onfailure = True\<rparr>"
      and new = recording_new and Run = recording_Run and workspace = "''ws''" and paths = "''bin''"
      and envs = "[]" and secretEnvs = "[]" and st = "\<lparr>world = [], logged = []\<rparr>"
      and steps = example_steps_unknown and i = 1]
  from t [THEN conjunct1, rule_format, of "NewToolInstallStep False ''ws'' [] []", THEN conjunct2,
      THEN conjunct2, rule_format, of "NewToolInstallStep False ''ws'' [] []"
        "[Constructed (NewToolInstallStep False ''ws'' [] [])]"
        "[Constructed (NewToolInstallStep False ''ws'' [] []), Ran (NewToolInstallStep False ''ws'' [] [])]"]
    n u
  have "runStep recording_new recording_Run \<lparr>StepType = ''tools'', Spec = False, Onfailure = True\<rparr>
       ''ws'' ''bin'' [] [] \<lparr>world = [], logged = []\<rparr>
     = (None, \<lparr>world = [Constructed (NewToolInstallStep False ''ws'' [] []),
                         Ran (NewToolInstallStep False ''ws'' [] [])],
                logged = []\<rparr>)"
    by simp
  then show ?thesis
    using recording_steps_unknown_run by (simp add: example_steps_unknown_def)
qed

text \<open>
  Claim C4. A step is dispatched when the loop of \<open>RunSteps\<close> passes it to \<open>runStep\<close>; its
  event is then \<open>Dispatched\<close> with what \<open>runStep\<close> returned, and \<open>Skipped\<close> otherwise.
  Every step has one event. A step whose \<open>Onfailure\<close> flag is set is always dispatched;
  once an earlier step has been dispatched and has failed, a step is dispatched if and
  only if its flag is set; and while no earlier step has failed, every step is
  dispatched. The events say what was executed: the final state (the world that the
  executors act on, and the logger) is the initial state taken through \<open>runStep\<close> by
  exactly the steps that were not skipped, in order, so that a skipped step has no
  effect; the event of a dispatched step carries what \<open>runStep\<close> returned in the state
  that the dispatched steps before it left; and \<open>runStep\<close>, for a step of a known type,
  applies the constructor of that type to the world and, when it succeeds, \<open>Run\<close> to the
  instance (a step of unknown type has no executor: see claim C2).
\<close>

theorem RunSteps_dispatch_iff_onfailure:
  assumes "RunSteps new Run steps workspace paths envs secretEnvs (st :: 'w step_state) = (r, st', evs)"
    and "i < length steps"
  shows "length evs = length steps
    \<and> (Onfailure (steps ! i) \<longrightarrow> evs ! i \<noteq> Skipped)
    \<and> ((\<exists>j<i. \<exists>err. evs ! j = Dispatched (Some err)) \<longrightarrow>
          (evs ! i \<noteq> Skipped \<longleftrightarrow> Onfailure (steps ! i)))
    \<and> ((\<forall>j<i. \<forall>err. evs ! j \<noteq> Dispatched (Some err)) \<longrightarrow> evs ! i \<noteq> Skipped)
    \<and> st' = fold (\<lambda>step s. snd (runStep new Run step workspace paths envs secretEnvs s))
              (dispatched_steps steps evs) st
    \<and> (evs ! i \<noteq> Skipped \<longrightarrow>
          evs ! i = Dispatched (fst (runStep new Run (steps ! i) workspace paths envs secretEnvs
            (fold (\<lambda>step s. snd (runStep new Run step workspace paths envs secretEnvs s))
               (dispatched_steps (take i steps) (take i evs)) st))))
    \<and> (\<forall>call s.
         (StepType (steps ! i) = ''shell'' \<and> call = NewShellStep (Spec (steps ! i)) workspace paths envs secretEnvs)
         \<or> (StepType (steps ! i) = ''git'' \<and> call = NewGitStep (Spec (steps ! i)) workspace envs secretEnvs)
         \<or> (StepType (steps ! i) = ''docker_build'' \<and> call = NewDockerBuildStep (Spec (steps ! i)) workspace envs secretEnvs)
         \<or> (StepType (steps ! i) = ''tools'' \<and> call = NewToolInstallStep (Spec (steps ! i)) workspace envs secretEnvs)
         \<or> (StepType (steps ! i) = ''archive'' \<and> call = NewArchiveStep (Spec (steps ! i)) workspace envs secretEnvs)
         \<or> (StepType (steps ! i) = ''junit_report'' \<and> call = NewJunitReportStep (Spec (steps ! i)) workspace envs secretEnvs)
         \<or> (StepType (steps ! i) = ''tar_archive'' \<and> call = NewTararchiveStep (Spec (steps ! i)) workspace envs secretEnvs)
         \<or> (StepType (steps ! i) = ''sonar_check'' \<and> call = NewSonarCheckStep (Spec (steps ! i)) workspace envs secretEnvs)
        \<longrightarrow>
          (\<forall>m w. new call (world s) = (Inl m, w) \<longrightarrow>
             runStep new Run (steps ! i) workspace paths envs secretEnvs s = (Some (Collab m), s\<lparr>world := w\<rparr>))
          \<and> (\<forall>stepInstance w m w'.
               new call (world s) = (Inr stepInstance, w) \<and> Run stepInstance w = (Some m, w') \<longrightarrow>
               runStep new Run (steps ! i) workspace paths envs secretEnvs s =
                 (Some (Collab m), s\<lparr>world := w', logged := logged s @ [LogError (Collab m)]\<rparr>))
          \<and> (\<forall>stepInstance w w'.
               new call (world s) = (Inr stepInstance, w) \<and> Run stepInstance w = (None, w') \<longrightarrow>
               runStep new Run (steps ! i) workspace paths envs secretEnvs s = (None, s\<lparr>world := w'\<rparr>)))"
proof -
  note s = RunSteps_summary [OF assms(1)]
  note t = RunSteps_states [OF assms(1)]
  from s(2) assms(2) have sk: "(evs ! i = Skipped) =
      ((\<exists>j<i. \<exists>err. evs ! j = Dispatched (Some err)) \<and> \<not> Onfailure (steps ! i))"
    by (simp add: is_failure_iff)
  from t(2) assms(2) have d: "evs ! i \<noteq> Skipped \<longrightarrow>
          evs ! i = Dispatched (fst (runStep new Run (steps ! i) workspace paths envs secretEnvs
            (fold (\<lambda>step s. snd (runStep new Run step workspace paths envs secretEnvs s))
               (dispatched_steps (take i steps) (take i evs)) st)))"
    by blast
  have exec: "(\<forall>call s.
         (StepType (steps ! i) = ''shell'' \<and> call = NewShellStep (Spec (steps ! i)) workspace paths envs secretEnvs)
         \<or> (StepType (steps ! i) = ''git'' \<and> call = NewGitStep (Spec (steps ! i)) workspace envs secretEnvs)
         \<or> (StepType (steps ! i) = ''docker_build'' \<and> call = NewDockerBuildStep (Spec (steps ! i)) workspace envs secretEnvs)
         \<or> (StepType (steps ! i) = ''tools'' \<and> call = NewToolInstallStep (Spec (steps ! i)) workspace envs secretEnvs)
         \<or> (StepType (steps ! i) = ''archive'' \<and> call = NewArchiveStep (Spec (steps ! i)) workspace envs secretEnvs)
         \<or> (StepType (steps ! i) = ''junit_report'' \<and> call = NewJunitReportStep (Spec (steps ! i)) workspace envs secretEnvs)
         \<or> (StepType (steps ! i) = ''tar_archive'' \<and> call = NewTararchiveStep (Spec (steps ! i)) workspace envs secretEnvs)
         \<or> (StepType (steps ! i) = ''sonar_check'' \<and> call = NewSonarCheckStep (Spec (steps ! i)) workspace envs secretEnvs)
        \<longrightarrow>
          (\<forall>m w. new call (world s) = (Inl m, w) \<longrightarrow>
             runStep new Run (steps ! i) workspace paths envs secretEnvs s = (Some (Collab m), s\<lparr>world := w\<rparr>))
          \<and> (\<forall>stepInstance w m w'.
               new call (world s) = (Inr stepInstance, w) \<and> Run stepInstance w = (Some m, w') \<longrightarrow>
               runStep new Run (steps ! i) workspace paths envs secretEnvs s =
                 (Some (Collab m), s\<lparr>world := w', logged := logged s @ [LogError (Collab m)]\<rparr>))
          \<and> (\<forall>stepInstance w w'.
               new call (world s) = (Inr stepInstance, w) \<and> Run stepInstance w = (None, w') \<longrightarrow>
               runStep new Run (steps ! i) workspace paths envs secretEnvs s = (None, s\<lparr>world := w'\<rparr>)))"
  proof (intro allI impI conjI)
    fix call and s :: "'w step_state" and m w
    assume c: "(StepType (steps ! i) = ''shell'' \<and> call = NewShellStep (Spec (steps ! i)) workspace paths envs secretEnvs)
       \<or> (StepType (steps ! i) = ''git'' \<and> call = NewGitStep (Spec (steps ! i)) workspace envs secretEnvs)
       \<or> (StepType (steps ! i) = ''docker_build'' \<and> call = NewDockerBuildStep (Spec (steps ! i)) workspace envs secretEnvs)
       \<or> (StepType (steps ! i) = ''tools'' \<and> call = NewToolInstallStep (Spec (steps ! i)) workspace envs secretEnvs)
       \<or> (StepType (steps ! i) = ''archive'' \<and> call = NewArchiveStep (Spec (steps ! i)) workspace envs secretEnvs)
       \<or> (StepType (steps ! i) = ''junit_report'' \<and> call = NewJunitReportStep (Spec (steps ! i)) workspace envs secretEnvs)
       \<or> (StepType (steps ! i) = ''tar_archive'' \<and> call = NewTararchiveStep (Spec (steps ! i)) workspace envs secretEnvs)
       \<or> (StepType (steps ! i) = ''sonar_check'' \<and> call = NewSonarCheckStep (Spec (steps ! i)) workspace envs secretEnvs)"
      and n: "new call (world s) = (Inl m, w)"
    show "runStep new Run (steps ! i) workspace paths envs secretEnvs s = (Some (Collab m), s\<lparr>world := w\<rparr>)"
      using c n by (rule runStep_executor(1))
  next
    fix call and s :: "'w step_state" and stepInstance w m w'
    assume c: "(StepType (steps ! i) = ''shell'' \<and> call = NewShellStep (Spec (steps ! i)) workspace paths envs secretEnvs)
       \<or> (StepType (steps ! i) = ''git'' \<and> call = NewGitStep (Spec (steps ! i)) workspace envs secretEnvs)
       \<or> (StepType (steps ! i) = ''docker_build'' \<and> call = NewDockerBuildStep (Spec (steps ! i)) workspace envs secretEnvs)
       \<or> (StepType (steps ! i) = ''tools'' \<and> call = NewToolInstallStep (Spec (steps ! i)) workspace envs secretEnvs)
       \<or> (StepType (steps ! i) = ''archive'' \<and> call = NewArchiveStep (Spec (steps ! i)) workspace envs secretEnvs)
       \<or> (StepType (steps ! i) = ''junit_report'' \<and> call = NewJunitReportStep (Spec (steps ! i)) workspace envs secretEnvs)
       \<or> (StepType (steps ! i) = ''tar_archive'' \<and> call = NewTararchiveStep (Spec (steps ! i)) workspace envs secretEnvs)
       \<or> (StepType (steps ! i) = ''sonar_check'' \<and> call = NewSonarCheckStep (Spec (steps ! i)) workspace envs secretEnvs)"
      and n: "new call (world s) = (Inr stepInstance, w) \<and> Run stepInstance w = (Some m, w')"
    show "runStep new Run (steps ! i) workspace paths envs secretEnvs s =
       (Some (Collab m), s\<lparr>world := w', logged := logged s @ [LogError (Collab m)]\<rparr>)"
      using c n [THEN conjunct1] n [THEN conjunct2] by (rule runStep_executor(2))
  next
    fix call and s :: "'w step_state" and stepInstance w w'
    assume c: "(StepType (steps ! i) = ''shell'' \<and> call = NewShellStep (Spec (steps ! i)) workspace paths envs secretEnvs)
       \<or> (StepType (steps ! i) = ''git'' \<and> call = NewGitStep (Spec (steps ! i)) workspace envs secretEnvs)
       \<or> (StepType (steps ! i) = ''docker_build'' \<and> call = NewDockerBuildStep (Spec (steps ! i)) workspace envs secretEnvs)
       \<or> (StepType (steps ! i) = ''tools'' \<and> call = NewToolInstallStep (Spec (steps ! i)) workspace envs secretEnvs)
       \<or> (StepType (steps ! i) = ''archive'' \<and> call = NewArchiveStep (Spec (steps ! i)) workspace envs secretEnvs)
       \<or> (StepType (steps ! i) = ''junit_report'' \<and> call = NewJunitReportStep (Spec (steps ! i)) workspace envs secretEnvs)
       \<or> (StepType (steps ! i) = ''tar_archive'' \<and> call = NewTararchiveStep (Spec (steps ! i)) workspace envs secretEnvs)
       \<or> (StepType (steps ! i) = ''sonar_check'' \<and> call = NewSonarCheckStep (Spec (steps ! i)) workspace envs secretEnvs)"
      and n: "new call (world s) = (Inr stepInstance, w) \<and> Run stepInstance w = (None, w')"
    show "runStep new Run (steps ! i) workspace paths envs secretEnvs s = (None, s\<lparr>world := w'\<rparr>)"
      using c n [THEN conjunct1] n [THEN conjunct2] by (rule runStep_executor(3))
  qed
  from sk have "Onfailure (steps ! i) \<longrightarrow> evs ! i \<noteq> Skipped"
    and "(\<exists>j<i. \<exists>err. evs ! j = Dispatched (Some err)) \<longrightarrow>
          (evs ! i \<noteq> Skipped \<longleftrightarrow> Onfailure (steps ! i))"
    and "(\<forall>j<i. \<forall>err. evs ! j \<noteq> Dispatched (Some err)) \<longrightarrow> evs ! i \<noteq> Skipped"
    by blast+
  with s(1) t(1) d exec show ?thesis by (intro conjI)
qed

theorem RunSteps_dispatch_iff_onfailure_witness:
  "RunSteps recording_new recording_Run example_steps_unknown ''ws'' ''bin'' [] []
       \<lparr>world = [], logged = []\<rparr>
     = (Some (Errorf ''step type: tool_install does not match any known type''),
        \<lparr>world = [Constructed (NewGitStep False ''ws'' [] []),
                  Ran (NewGitStep False ''ws'' [] []),
                  Constructed (NewToolInstallStep False ''ws'' [] []),
                  Ran (NewToolInstallStep False ''ws'' [] [])],
          logged = [LogError (Errorf ''step type: tool_install does not match any known type'')]\<rparr>,
        [Dispatched None,
         Dispatched (Some (Errorf ''step type: tool_install does not match any known type'')),
         Skipped, Dispatched None])
   \<and> (2::nat) < length example_steps_unknown
   \<and> StepType (example_steps_unknown ! 2) = ''shell''
   \<and> \<not> Onfailure (example_steps_unknown ! 2)
   \<and> [Dispatched None,
       Dispatched (Some (Errorf ''step type: tool_install does not match any known type'')),
       Skipped, Dispatched None] ! 2 = Skipped
   \<and> dispatched_steps example_steps_unknown
        [Dispatched None,
         Dispatched (Some (Errorf ''step type: tool_install does not match any known type'')),
         Skipped, Dispatched None]
       = [example_steps_unknown ! 0, example_steps_unknown ! 1, example_steps_unknown ! 3]"
proof -
  have l: "(2::nat) < length example_steps_unknown" by (simp add: example_steps_unknown_def)
  note t = RunSteps_dispatch_iff_onfailure [OF recording_steps_unknown_run l]
  from t [THEN conjunct2, THEN conjunct2, THEN conjunct1]
  have "[Dispatched None,
       Dispatched (Some (Errorf ''step type: tool_install does not match any known type'')),
       Skipped, Dispatched None] ! 2 = Skipped"
    by (simp add: example_steps_unknown_def)
  then show ?thesis
    using recording_steps_unknown_run by (simp add: example_steps_unknown_def)
qed



text \<open>
  Claim C10. On the empty step list \<open>RunSteps\<close> returns nil, with no event (so nothing
  was passed to \<open>runStep\<close>) and with the world and the logger as they were.
\<close>

theorem RunSteps_empty:
  "RunSteps new Run [] workspace paths envs secretEnvs st = (None, st, [])"
  by (simp add: RunSteps_def)


section \<open>SyncYamlFromSource (claims C8, C9)\<close>

text \<open>
  Claim C8. For a source with \<open>AutoSync\<close> set and origin variable-set: a failed lookup
  is returned with \<open>(false, "")\<close>; when the comparison reports an error or reports the
  stored and the current value equal, the result is \<open>(false, "")\<close> with that error (or
  nil); otherwise the result is \<open>(true, storedValue, nil)\<close>. The comparison is
  \<open>yamlutil.Equal\<close>, a parameter here: whenever it reports equality (as a structural
  comparison does for documents that differ in key order or whitespace only), no change
  is reported.
\<close>

theorem SyncYamlFromSource_variable_set:
  assumes "AutoSync yd" and "Source yd = SourceFromVariableSet env"
  shows "(\<forall>err. VariableSetColl_Find env (SourceID yd) = Inl err \<longrightarrow>
            SyncYamlFromSource env (Some yd) curValue = (False, [], Some err))
    \<and> (\<forall>vs equal err. VariableSetColl_Find env (SourceID yd) = Inr vs
            \<and> yamlutil_Equal env (VariableYaml vs) curValue = (equal, err)
            \<and> (equal \<or> err \<noteq> None) \<longrightarrow>
            SyncYamlFromSource env (Some yd) curValue = (False, [], err))
    \<and> (\<forall>vs. VariableSetColl_Find env (SourceID yd) = Inr vs
            \<and> yamlutil_Equal env (VariableYaml vs) curValue = (False, None) \<longrightarrow>
            SyncYamlFromSource env (Some yd) curValue = (True, VariableYaml vs, None))"
  using assms by (auto simp: SyncYamlFromSource_def syncYamlFromVariableSet_def)

theorem SyncYamlFromSource_variable_set_witness:
  "SyncYamlFromSource example_sync_env
      (Some \<lparr>Source = ''variableSet'', AutoSync = True, SourceDetail = (), SourceID = ''vs1''\<rparr>)
      ''a:   1'' = (False, [], None)
   \<and> SyncYamlFromSource example_sync_env
      (Some \<lparr>Source = ''variableSet'', AutoSync = True, SourceDetail = (), SourceID = ''vs1''\<rparr>)
      ''a: 2'' = (True, ''a: 1'', None)
   \<and> SyncYamlFromSource example_sync_env
      (Some \<lparr>Source = ''variableSet'', AutoSync = True, SourceDetail = (), SourceID = ''vs2''\<rparr>)
      ''a: 1'' = (False, [], Some (External ''not found''))"
  using SyncYamlFromSource_variable_set [of
      "\<lparr>Source = ''variableSet'', AutoSync = True, SourceDetail = (), SourceID = ''vs1''\<rparr>"
      example_sync_env "''a:   1''"]
    SyncYamlFromSource_variable_set [of
      "\<lparr>Source = ''variableSet'', AutoSync = True, SourceDetail = (), SourceID = ''vs1''\<rparr>"
      example_sync_env "''a: 2''"]
    SyncYamlFromSource_variable_set [of
      "\<lparr>Source = ''variableSet'', AutoSync = True, SourceDetail = (), SourceID = ''vs2''\<rparr>"
      example_sync_env "''a: 1''"]
  by (simp add: example_sync_env_def)

text \<open>
  Claim C9. Whatever the input, when the changed flag is false the returned value is
  the empty string; when it is true the returned error is nil and the returned value is
  the replacement: the value stored in the variable set that was looked up, or the
  content of the file that was downloaded, and the comparison reported it different
  from the current value without error.
\<close>

theorem SyncYamlFromSource_result_invariant:
  assumes "SyncYamlFromSource env yamlData curValue = (changed, newValue, err)"
  shows "(\<not> changed \<longrightarrow> newValue = [])
    \<and> (changed \<longrightarrow> err = None
          \<and> yamlutil_Equal env newValue curValue = (False, None)
          \<and> (\<exists>yd. yamlData = Some yd \<and> AutoSync yd
                \<and> ((Source yd = SourceFromVariableSet env
                      \<and> (\<exists>vs. VariableSetColl_Find env (SourceID yd) = Inr vs
                                \<and> newValue = VariableYaml vs))
                   \<or> (Source yd \<noteq> SourceFromVariableSet env
                      \<and> (\<exists>sd rc. UnMarshalSourceDetail env (SourceDetail yd) = Inr sd
                            \<and> GitRepoConfig sd = Some rc
                            \<and> DownloadFileFromSource env
                                 \<lparr>dl_CodehostID = repo_CodehostID rc, dl_Owner = repo_Owner rc,
                                  dl_Namespace = repo_Namespace rc, dl_Repo = repo_Repo rc,
                                  dl_Path = LoadPath sd, dl_Branch = repo_Branch rc,
                                  dl_RepoLink = []\<rparr> = Inr newValue)))))"
proof (cases yamlData)
  case None
  with assms show ?thesis by (simp add: SyncYamlFromSource_def)
next
  case (Some yd)
  show ?thesis
  proof (cases "AutoSync yd")
    case False
    with Some assms show ?thesis by (simp add: SyncYamlFromSource_def)
  next
    case True
    show ?thesis
    proof (cases "Source yd = SourceFromVariableSet env")
      case vs: True
      with Some True assms
      have "syncYamlFromVariableSet env yd curValue = (changed, newValue, err)"
        by (simp add: SyncYamlFromSource_def)
      with Some True vs show ?thesis
        by (auto simp: syncYamlFromVariableSet_def split: sum.splits prod.splits if_splits)
    next
      case git: False
      with Some True assms
      have "syncYamlFromGit env yd curValue = (changed, newValue, err)"
        by (simp add: SyncYamlFromSource_def)
      with Some True git show ?thesis
        by (auto simp: syncYamlFromGit_def
              split: sum.splits prod.splits if_splits option.splits)
    qed
  qed
qed

theorem SyncYamlFromSource_result_invariant_witness:
  "SyncYamlFromSource example_sync_env
      (Some \<lparr>Source = ''repo'', AutoSync = True, SourceDetail = (), SourceID = []\<rparr>)
      ''a: 1'' = (True, ''b: 2'', None)
   \<and> yamlutil_Equal example_sync_env ''b: 2'' ''a: 1'' = (False, None)
   \<and> SyncYamlFromSource example_sync_env
      (Some \<lparr>Source = ''repo'', AutoSync = True, SourceDetail = (), SourceID = []\<rparr>)
      ''b:2'' = (False, [], None)"
proof -
  have c: "SyncYamlFromSource example_sync_env
      (Some \<lparr>Source = ''repo'', AutoSync = True, SourceDetail = (), SourceID = []\<rparr>)
      ''a: 1'' = (True, ''b: 2'', None)"
    by (simp add: SyncYamlFromSource_def syncYamlFromGit_def fromGitRepo_def example_sync_env_def)
  have n: "SyncYamlFromSource example_sync_env
      (Some \<lparr>Source = ''repo'', AutoSync = True, SourceDetail = (), SourceID = []\<rparr>)
      ''b:2'' = (False, [], None)"
    by (simp add: SyncYamlFromSource_def syncYamlFromGit_def fromGitRepo_def example_sync_env_def)
  from SyncYamlFromSource_result_invariant [OF c] SyncYamlFromSource_result_invariant [OF n] c n
  show ?thesis by simp
qed


section \<open>GetMergedYamlContent (claims C6, C7)\<close>

lemma fold_fetch_errors:
  "errorList (fold (fetch_unit env arg other) sched fs) =
     errorList fs @ fetch_errors env arg other sched"
  by (induction sched arbitrary: fs)
     (auto simp: fetch_unit_def fetch_errors_def split: sum.splits)

lemma fold_fetch_contents:
  assumes "distinct (map fst sched)"
    and "\<forall>(i, p)\<in>set sched. \<exists>c. fetch_result env arg i p other = Inr c"
  shows "fileContentMap (fold (fetch_unit env arg other) sched fs) k =
     (case map_of sched k of
        None \<Rightarrow> fileContentMap fs k
      | Some p \<Rightarrow> Some (projr (fetch_result env arg k p other)))"
  using assms
proof (induction sched arbitrary: fs)
  case Nil
  then show ?case by simp
next
  case (Cons u sched)
  obtain i p where u: "u = (i, p)" by (cases u)
  with Cons.prems obtain c where c: "fetch_result env arg i p other = Inr c" by auto
  have d: "distinct (map fst sched)" and ni: "i \<notin> fst ` set sched"
    using Cons.prems(1) u by auto
  have a: "\<forall>(i, p)\<in>set sched. \<exists>c. fetch_result env arg i p other = Inr c"
    using Cons.prems(2) by simp
  from ni have mi: "map_of sched i = None" by (simp add: map_of_eq_None_iff)
  show ?case
    using Cons.IH [OF d a, of "fetch_unit env arg other u fs"] u c mi
    by (auto simp: fetch_unit_def split: option.splits)
qed

lemma fold_contentArr:
  "fold (\<lambda>i contentArr. case m i of Some contentObj \<Rightarrow> contentArr @ [contentObj] | None \<Rightarrow> contentArr) xs acc
     = acc @ List.map_filter m xs"
  by (induction xs arbitrary: acc) (auto simp: List.map_filter_simps split: option.splits)

lemma schedule_units:
  assumes "distinct sched" and "set sched = set (List.enumerate 0 paths)"
  shows "distinct (map fst sched)"
    and "\<And>i. i < length paths \<Longrightarrow> map_of sched i = Some (paths ! i)"
    and "\<And>i p. (i, p) \<in> set sched \<longleftrightarrow> i < length paths \<and> p = paths ! i"
proof -
  show m: "\<And>i p. (i, p) \<in> set sched \<longleftrightarrow> i < length paths \<and> p = paths ! i"
    using assms(2) by (auto simp: in_set_enumerate_eq)
  have "inj_on fst (set sched)"
    by (rule inj_onI) (use m in \<open>auto simp: prod_eq_iff\<close>)
  with assms(1) show d: "distinct (map fst sched)" by (simp add: distinct_map)
  fix i assume "i < length paths"
  with m have "(i, paths ! i) \<in> set sched" by simp
  with d show "map_of sched i = Some (paths ! i)" by simp
qed




lemma set_failed_units:
  assumes "set sched = set (List.enumerate 0 paths)"
  shows "set [err. (i, p) \<leftarrow> sched, Inl err \<leftarrow> [f i p :: svc_error + string]]
           = {err. \<exists>i<length paths. f i (paths ! i) = Inl err}"
proof -
  have "set [err. (i, p) \<leftarrow> xs, Inl err \<leftarrow> [f i p]] = {err. \<exists>u\<in>set xs. f (fst u) (snd u) = Inl err}" for xs
  proof (induction xs)
    case Nil
    then show ?case by simp
  next
    case (Cons u xs)
    obtain i p where u: "u = (i, p)" by (cases u)
    show ?case
    proof (cases "f i p")
      case (Inl e)
      with u Cons.IH show ?thesis by auto
    next
      case (Inr c)
      with u Cons.IH show ?thesis by auto
    qed
  qed
  then have "set [err. (i, p) \<leftarrow> sched, Inl err \<leftarrow> [f i p]] = {err. \<exists>u\<in>set sched. f (fst u) (snd u) = Inl err}" .
  also have "\<dots> = {err. \<exists>i<length paths. f i (paths ! i) = Inl err}"
  proof -
    have "(\<exists>u\<in>set sched. f (fst u) (snd u) = Inl err) = (\<exists>i<length paths. f i (paths ! i) = Inl err)" for err
    proof
      assume "\<exists>u\<in>set sched. f (fst u) (snd u) = Inl err"
      then obtain u where u: "u \<in> set (List.enumerate 0 paths)" "f (fst u) (snd u) = Inl err"
        using assms by auto
      obtain i p where ip: "u = (i, p)" by (cases u)
      from u(1) ip have "i < length paths" "p = paths ! i"
        by (simp_all add: in_set_enumerate_eq)
      with u(2) ip show "\<exists>i<length paths. f i (paths ! i) = Inl err" by auto
    next
      assume "\<exists>i<length paths. f i (paths ! i) = Inl err"
      then obtain i where i: "i < length paths" "f i (paths ! i) = Inl err" by blast
      then have "(i, paths ! i) \<in> set sched"
        using assms by (simp add: in_set_enumerate_eq)
      with i(2) show "\<exists>u\<in>set sched. f (fst u) (snd u) = Inl err" by force
    qed
    then show ?thesis by simp
  qed
  finally show ?thesis .
qed


lemma map_filter_all_Some:
  "\<forall>x\<in>set xs. m x = Some (g x) \<Longrightarrow> List.map_filter m xs = map g xs"
  by (induction xs) (simp_all add: List.map_filter_simps)

lemma GetMergedYamlContent_fetch_stage:
  assumes "GetCodeHost env (arg_CodehostID arg) = Inr detail"
    and "Type detail = SourceFromOther env \<longrightarrow>
           RunGitCmds env detail (arg_Namespace arg) (arg_Namespace arg)
             (arg_Repo arg) (arg_Branch arg) ''origin'' = None"
  shows "GetMergedYamlContent env sched arg paths =
     (let fs = fold (fetch_unit env arg (Type detail = SourceFromOther env)) sched
                 \<lparr>fileContentMap = Map.empty, errorList = []\<rparr>
      in if errorList fs \<noteq> [] then ([], Some (MultiError (errorList fs)))
         else (case yamlutil_Merge env (List.map_filter (fileContentMap fs) [0..<length paths]) of
                 Inl err \<Rightarrow> ([], Some (Wrapf err ''failed to merge files''))
               | Inr ret \<Rightarrow> (ret, None)))"
  using assms by (simp add: GetMergedYamlContent_def Let_def fold_contentArr)


lemma set_fetch_errors:
  assumes "set sched = set (List.enumerate 0 paths)"
  shows "set (fetch_errors env arg other sched)
           = {err. \<exists>i<length paths. fetch_result env arg i (paths ! i) other = Inl err}"
  unfolding fetch_errors_def
  by (rule set_failed_units [OF assms, of "\<lambda>i p. fetch_result env arg i p other"])



lemma GetMergedYamlContent_all_fetched:
  assumes "GetCodeHost env (arg_CodehostID arg) = Inr detail"
    and "Type detail = SourceFromOther env \<longrightarrow>
           RunGitCmds env detail (arg_Namespace arg) (arg_Namespace arg)
             (arg_Repo arg) (arg_Branch arg) ''origin'' = None"
    and "distinct sched" and "set sched = set (List.enumerate 0 paths)"
    and ok: "\<forall>i<length paths. \<exists>content.
           fetch_result env arg i (paths ! i) (Type detail = SourceFromOther env) = Inr content"
  shows "GetMergedYamlContent env sched arg paths =
           (case yamlutil_Merge env
                   (map (\<lambda>i. projr (fetch_result env arg i (paths ! i)
                                      (Type detail = SourceFromOther env)))
                      [0..<length paths]) of
              Inl err \<Rightarrow> ([], Some (Wrapf err ''failed to merge files''))
            | Inr ret \<Rightarrow> (ret, None))"
proof -
  let ?other = "Type detail = SourceFromOther env"
  let ?fs = "fold (fetch_unit env arg ?other) sched \<lparr>fileContentMap = Map.empty, errorList = []\<rparr>"
  note u = schedule_units [OF assms(3,4)]
  from ok have "{err. \<exists>i<length paths. fetch_result env arg i (paths ! i) ?other = Inl err} = {}"
    by auto
  then have "set (fetch_errors env arg ?other sched) = {}"
    using set_fetch_errors [OF assms(4), of env arg ?other] by simp
  then have e: "errorList ?fs = []"
    using fold_fetch_errors [of env arg ?other sched "\<lparr>fileContentMap = Map.empty, errorList = []\<rparr>"]
    by simp
  have all: "\<forall>(i, p)\<in>set sched. \<exists>c. fetch_result env arg i p ?other = Inr c"
    using ok u(3) by auto
  have "fileContentMap ?fs i = Some (projr (fetch_result env arg i (paths ! i) ?other))"
    if "i < length paths" for i
    using fold_fetch_contents [OF u(1) all, of "\<lparr>fileContentMap = Map.empty, errorList = []\<rparr>" i]
      u(2) [OF that]
    by simp
  then have "List.map_filter (fileContentMap ?fs) [0..<length paths] =
      map (\<lambda>i. projr (fetch_result env arg i (paths ! i) ?other)) [0..<length paths]"
    by (intro map_filter_all_Some) simp
  with e show ?thesis
    using GetMergedYamlContent_fetch_stage [OF assms(1,2), of sched paths]
    by (simp add: Let_def)
qed


lemma example_merge_fetch_results:
  "fetch_result example_merge_env example_arg i p False =
     (if take 1 p = ''b'' then Inl (Wrapf (External ''network error'')
                                      (''failed to download file from git, path '' @ p))
      else Inr (p @ '';''))"
  by (simp add: fetch_result_def example_merge_env_def)



text \<open>
  Claim C7. Suppose the code host is found and every unit fetches its content. Then
  the result is the same for any two orders in which the units act; and when the fetch
  stage is reached, the list handed to \<open>yamlutil.Merge\<close> is the list of the fetched
  contents in the order of \<open>paths\<close>, so that the result is what the merge returns on
  that list (or its error, wrapped).
\<close>

theorem GetMergedYamlContent_schedule_independent:
  assumes "GetCodeHost env (arg_CodehostID arg) = Inr detail"
    and "distinct sched1" and "set sched1 = set (List.enumerate 0 paths)"
    and "distinct sched2" and "set sched2 = set (List.enumerate 0 paths)"
    and "\<forall>i<length paths. \<exists>content.
           fetch_result env arg i (paths ! i) (Type detail = SourceFromOther env) = Inr content"
  shows "GetMergedYamlContent env sched1 arg paths = GetMergedYamlContent env sched2 arg paths
    \<and> ((Type detail = SourceFromOther env \<longrightarrow>
           RunGitCmds env detail (arg_Namespace arg) (arg_Namespace arg)
             (arg_Repo arg) (arg_Branch arg) ''origin'' = None) \<longrightarrow>
        GetMergedYamlContent env sched1 arg paths =
           (case yamlutil_Merge env
                   (map (\<lambda>i. projr (fetch_result env arg i (paths ! i)
                                      (Type detail = SourceFromOther env)))
                      [0..<length paths]) of
              Inl err \<Rightarrow> ([], Some (Wrapf err ''failed to merge files''))
            | Inr ret \<Rightarrow> (ret, None)))"
proof (cases "Type detail = SourceFromOther env \<longrightarrow>
           RunGitCmds env detail (arg_Namespace arg) (arg_Namespace arg)
             (arg_Repo arg) (arg_Branch arg) ''origin'' = None")
  case True
  from GetMergedYamlContent_all_fetched [OF assms(1) True assms(2,3,6)]
    GetMergedYamlContent_all_fetched [OF assms(1) True assms(4,5,6)]
  show ?thesis by simp
next
  case False
  then obtain err where other: "Type detail = SourceFromOther env"
    and git: "RunGitCmds env detail (arg_Namespace arg) (arg_Namespace arg)
       (arg_Repo arg) (arg_Branch arg) ''origin'' = Some err"
    by auto
  with assms(1) have "GetMergedYamlContent env sched arg paths = ([], Some (ErrListRepoDir_AddDesc err))"
    for sched
    by (simp add: GetMergedYamlContent_def)
  then have "GetMergedYamlContent env sched1 arg paths = GetMergedYamlContent env sched2 arg paths"
    by simp
  with False show ?thesis by blast
qed

theorem GetMergedYamlContent_schedule_independent_witness:
  "GetMergedYamlContent example_merge_env [(1, ''c.yaml''), (0, ''a.yaml'')] example_arg
       [''a.yaml'', ''c.yaml'']
     = GetMergedYamlContent example_merge_env [(0, ''a.yaml''), (1, ''c.yaml'')] example_arg
       [''a.yaml'', ''c.yaml'']
   \<and> GetMergedYamlContent example_merge_env [(1, ''c.yaml''), (0, ''a.yaml'')] example_arg
       [''a.yaml'', ''c.yaml'']
     = (''a.yaml;c.yaml;'', None)"
proof -
  have c: "GetCodeHost example_merge_env (arg_CodehostID example_arg) = Inr \<lparr>Type = ''gitlab''\<rparr>"
    by (simp add: example_merge_env_def)
  have o: "Type \<lparr>Type = ''gitlab''\<rparr> \<noteq> SourceFromOther example_merge_env"
    by (simp add: example_merge_env_def)
  have d1: "distinct [(1::nat, ''c.yaml''), (0, ''a.yaml'')]"
    and d2: "distinct [(0::nat, ''a.yaml''), (1, ''c.yaml'')]" by simp_all
  have s1: "set [(1::nat, ''c.yaml''), (0, ''a.yaml'')] = set (List.enumerate 0 [''a.yaml'', ''c.yaml''])"
    and s2: "set [(0::nat, ''a.yaml''), (1, ''c.yaml'')] = set (List.enumerate 0 [''a.yaml'', ''c.yaml''])"
    by auto
  have ok: "\<forall>i<length [''a.yaml'', ''c.yaml'']. \<exists>content.
      fetch_result example_merge_env example_arg i ([''a.yaml'', ''c.yaml''] ! i)
        (Type \<lparr>Type = ''gitlab''\<rparr> = SourceFromOther example_merge_env) = Inr content"
    using o by (simp add: example_merge_fetch_results less_Suc_eq)
  have m: "yamlutil_Merge example_merge_env contents = Inr (concat contents)" for contents
    by (simp add: example_merge_env_def)
  note t = GetMergedYamlContent_schedule_independent [OF c d1 s1 d2 s2 ok]
  from t have "GetMergedYamlContent example_merge_env [(1, ''c.yaml''), (0, ''a.yaml'')] example_arg
       [''a.yaml'', ''c.yaml'']
     = GetMergedYamlContent example_merge_env [(0, ''a.yaml''), (1, ''c.yaml'')] example_arg
       [''a.yaml'', ''c.yaml'']"
    by (rule conjunct1)
  moreover from t [THEN conjunct2] o
  have "GetMergedYamlContent example_merge_env [(1, ''c.yaml''), (0, ''a.yaml'')]
       example_arg [''a.yaml'', ''c.yaml''] = (''a.yaml;c.yaml;'', None)"
    by (simp add: example_merge_fetch_results m upt_rec)
  ultimately show ?thesis by (rule conjI)
qed

end
